theory Spec2Isabelle
  imports Complex_Main
begin

section \<open>Self-intersection test of a triangulated polyhedron\<close>

text \<open>
  A shallow embedding of \<^verbatim>\<open>CGAL::internal::Intersect_facets\<close>,
  \<^verbatim>\<open>CGAL::internal::Throw_at_output\<close> and the two overloads of
  \<^verbatim>\<open>CGAL::self_intersect\<close>.

  The polyhedron is an index-addressed half-edge structure: handles are natural numbers,
  and the accessors of the source (\<^verbatim>\<open>f->halfedge()\<close>, \<^verbatim>\<open>h->next()\<close>,
  \<^verbatim>\<open>h->opposite()\<close>, \<^verbatim>\<open>h->vertex()\<close>, \<^verbatim>\<open>h->facet()\<close>,
  \<^verbatim>\<open>v->point()\<close>) are the fields of a record. A border half-edge has no facet, so
  \<open>facet\<close> returns an option; a default-constructed half-edge handle is \<open>None\<close>.
  The geometry kernel and the box sweep are parameters of the model.
\<close>

subsection \<open>Geometry kernel values\<close>

record Point_3 =
  px :: real
  py :: real
  pz :: real

datatype Triangle_3 = Triangle Point_3 Point_3 Point_3

datatype Segment_3 = Segment Point_3 Point_3

record Bbox_3 =
  xmin :: real
  ymin :: real
  zmin :: real
  xmax :: real
  ymax :: real
  zmax :: real

text \<open>
  The two predicates \<^verbatim>\<open>CGAL::do_intersect(Triangle, Segment)\<close> and
  \<^verbatim>\<open>CGAL::do_intersect(Triangle, Triangle)\<close> belong to the kernel. A predicate either
  answers (\<open>Inr\<close>) or fails with a value of the kernel's own failure type (\<open>Inl\<close>).
\<close>

record 'e Kernel =
  do_intersect_ts :: "Triangle_3 \<Rightarrow> Segment_3 \<Rightarrow> 'e + bool"
  do_intersect_tt :: "Triangle_3 \<Rightarrow> Triangle_3 \<Rightarrow> 'e + bool"

text \<open>
  Modelled from the spec: \<^verbatim>\<open>Point_3::bbox()\<close> is not part of the sources at hand. The
  spec has the box of a facet cover the pointwise min/max of its vertex positions, so the
  box of one point is the point itself on every axis.
\<close>

definition point_bbox :: "Point_3 \<Rightarrow> Bbox_3" where
  "point_bbox p =
     \<lparr>xmin = px p, ymin = py p, zmin = pz p, xmax = px p, ymax = py p, zmax = pz p\<rparr>"

text \<open>
  Modelled from the spec: \<^verbatim>\<open>Bbox_3::operator+\<close> is not part of the sources at hand. The
  spec's box is the per-axis minimum and maximum.
\<close>

definition bbox_plus :: "Bbox_3 \<Rightarrow> Bbox_3 \<Rightarrow> Bbox_3" where
  "bbox_plus a b =
     \<lparr>xmin = min (xmin a) (xmin b), ymin = min (ymin a) (ymin b), zmin = min (zmin a) (zmin b),
      xmax = max (xmax a) (xmax b), ymax = max (ymax a) (ymax b), zmax = max (zmax a) (zmax b)\<rparr>"

definition bbox_contains :: "Bbox_3 \<Rightarrow> Point_3 \<Rightarrow> bool" where
  "bbox_contains b p \<longleftrightarrow>
     xmin b \<le> px p \<and> px p \<le> xmax b \<and>
     ymin b \<le> py p \<and> py p \<le> ymax b \<and>
     zmin b \<le> pz p \<and> pz p \<le> zmax b"

text \<open>The point \<open>a\<cdot>p + b\<cdot>q + c\<cdot>r\<close>; with non-negative weights of sum one these are
  the points of the triangle \<open>p q r\<close>.\<close>

definition combination :: "real \<Rightarrow> real \<Rightarrow> real \<Rightarrow> Point_3 \<Rightarrow> Point_3 \<Rightarrow> Point_3 \<Rightarrow> Point_3" where
  "combination a b c p q r =
     \<lparr>px = a * px p + b * px q + c * px r,
      py = a * py p + b * py q + c * py r,
      pz = a * pz p + b * pz q + c * pz r\<rparr>"

subsection \<open>The polyhedron\<close>

type_synonym Halfedge_handle = nat
type_synonym Vertex_handle = nat
type_synonym Facet_handle = nat

record Polyhedron =
  facets :: "Facet_handle list"
  halfedge :: "Facet_handle \<Rightarrow> Halfedge_handle"
  "next" :: "Halfedge_handle \<Rightarrow> Halfedge_handle"
  opposite :: "Halfedge_handle \<Rightarrow> Halfedge_handle"
  vertex :: "Halfedge_handle \<Rightarrow> Vertex_handle"
  facet :: "Halfedge_handle \<Rightarrow> Facet_handle option"
  point :: "Vertex_handle \<Rightarrow> Point_3"

text \<open>
  Modelled from the spec: \<^verbatim>\<open>Polyhedron::is_pure_triangle()\<close> is not part of the sources
  at hand. The spec's purity predicate is "every facet bounded by exactly 3 half-edges":
  the \<open>next\<close> cycle of the facet's half-edge closes after three steps and not earlier.
\<close>

definition is_triangle :: "Polyhedron \<Rightarrow> Halfedge_handle \<Rightarrow> bool" where
  "is_triangle P h \<longleftrightarrow> next P (next P (next P h)) = h \<and> next P h \<noteq> h"

text \<open>
  Modelled from the spec: the purity predicate over the facet iteration, every facet
  bounded by exactly 3 half-edges.
\<close>

definition is_pure_triangle :: "Polyhedron \<Rightarrow> bool" where
  "is_pure_triangle P = list_all (\<lambda>f. is_triangle P (halfedge P f)) (facets P)"

text \<open>\<^verbatim>\<open>Box_with_handle_d<double, 3, Facet_const_handle>\<close>: a box and the facet it is for.\<close>

record Box =
  bbox :: Bbox_3
  handle :: Facet_handle

subsection \<open>Exceptions and the output iterator\<close>

text \<open>
  What can leave the code by an exception: the exception of \<^verbatim>\<open>Throw_at_output\<close>, a
  failed \<^verbatim>\<open>CGAL_assertion\<close> (the model is the checking build), and a failure of a kernel
  predicate. An exception does not undo what was written to the output iterator before, so
  an outcome carries the state of the output in both cases.
\<close>

datatype 'e failure =
  Throw_at_output_exception
  | Assertion_violation
  | Predicate_failure 'e

datatype ('e, 's) outcome =
  Done 's
  | Raised "'e failure" 's

fun output_of :: "('e, 's) outcome \<Rightarrow> 's" where
  "output_of (Done s) = s"
| "output_of (Raised e s) = s"

text \<open>
  An output iterator: \<^verbatim>\<open>*it++ = t\<close> takes the state of the output and a triangle,
  and gives the new state or throws. The operator keeps its iterator in a mutable member
  and the sweep receives the operator by value; the model threads one state through all
  calls, which is right for an iterator whose copies write to the same sequence.
\<close>

type_synonym ('e, 's) OutputIterator = "'s \<Rightarrow> Triangle_3 \<Rightarrow> ('e, 's) outcome"

text \<open>An iterator that appends to a sequence, as \<^verbatim>\<open>std::back_inserter\<close> does.\<close>

definition back_inserter :: "('e, Triangle_3 list) OutputIterator" where
  "back_inserter out t = Done (out @ [t])"

text \<open>\<^verbatim>\<open>boost::function_output_iterator<Throw_at_output>\<close>: every write throws.\<close>

definition Throw_at_output :: "('e, unit) OutputIterator" where
  "Throw_at_output u t = Raised Throw_at_output_exception u"

text \<open>The two statements \<^verbatim>\<open>*m_iterator++ = t1; *m_iterator++ = t2;\<close>.\<close>

definition write_pair ::
  "('e, 's) OutputIterator \<Rightarrow> 's \<Rightarrow> Triangle_3 \<Rightarrow> Triangle_3 \<Rightarrow> ('e, 's) outcome" where
  "write_pair it s t1 t2 =
     (case it s t1 of
        Raised e s' \<Rightarrow> Raised e s'
      | Done s' \<Rightarrow> it s' t2)"

subsection \<open>\<^verbatim>\<open>Intersect_facets::operator()\<close>\<close>

definition triangle_at :: "Polyhedron \<Rightarrow> Halfedge_handle \<Rightarrow> Triangle_3" where
  "triangle_at P h =
     Triangle (point P (vertex P h))
              (point P (vertex P (next P h)))
              (point P (vertex P (next P (next P h))))"

definition segment_after :: "Polyhedron \<Rightarrow> Halfedge_handle \<Rightarrow> Segment_3" where
  "segment_after P h =
     Segment (point P (vertex P (next P h)))
             (point P (vertex P (next P (next P h))))"

text \<open>Lines 44 to 46: one of the three half-edges of \<open>b\<close>'s facet has its opposite in
  the facet \<open>c\<close>.\<close>

definition shared_edge :: "Polyhedron \<Rightarrow> Halfedge_handle \<Rightarrow> Facet_handle \<Rightarrow> bool" where
  "shared_edge P h c \<longleftrightarrow>
     facet P (opposite P h) = Some c \<or>
     facet P (opposite P (next P h)) = Some c \<or>
     facet P (opposite P (next P (next P h))) = Some c"

text \<open>One block of three \<^verbatim>\<open>if\<close> statements (lines 53 to 58): they are not chained by
  \<^verbatim>\<open>else\<close>, so a later match overwrites an earlier one.\<close>

definition match_vertex ::
  "Polyhedron \<Rightarrow> Halfedge_handle \<Rightarrow> Halfedge_handle \<Rightarrow> Halfedge_handle option
     \<Rightarrow> Halfedge_handle option" where
  "match_vertex P h g v0 =
     (let v1 = (if vertex P h = vertex P g then Some g else v0);
          v2 = (if vertex P h = vertex P (next P g) then Some (next P g) else v1);
          v3 = (if vertex P h = vertex P (next P (next P g))
                then Some (next P (next P g)) else v2)
      in v3)"

text \<open>Lines 50 to 79: the scan for a shared vertex. It returns the half-edge \<open>h\<close> as it
  stands after the scan, and \<open>v\<close>.\<close>

definition find_shared_vertex ::
  "Polyhedron \<Rightarrow> Halfedge_handle \<Rightarrow> Halfedge_handle
     \<Rightarrow> Halfedge_handle \<times> Halfedge_handle option" where
  "find_shared_vertex P h g =
     (let v = match_vertex P h g None in
      if v = None then
        (let h = next P h;
             v = match_vertex P h g v in
         if v = None then
           (let h = next P h;
                v = match_vertex P h g v in
            (h, v))
         else (h, v))
      else (h, v))"

text \<open>A predicate call and the branch on its answer; a failure of the predicate leaves
  the operator as an exception.\<close>

definition on_answer ::
  "'e + bool \<Rightarrow> 's \<Rightarrow> ('e, 's) outcome \<Rightarrow> ('e, 's) outcome \<Rightarrow> ('e, 's) outcome" where
  "on_answer r s yes no =
     (case r of
        Inl e \<Rightarrow> Raised (Predicate_failure e) s
      | Inr ans \<Rightarrow> if ans then yes else no)"

definition Intersect_facets ::
  "Polyhedron \<Rightarrow> 'e Kernel \<Rightarrow> ('e, 's) OutputIterator \<Rightarrow> 's \<Rightarrow> Box \<Rightarrow> Box \<Rightarrow> ('e, 's) outcome" where
  "Intersect_facets P K it s b c =
     (let h = halfedge P (handle b) in
      if shared_edge P h (handle c) then Done s
      else
        let g = halfedge P (handle c);
            (h, v) = find_shared_vertex P h g
        in case v of
             Some v \<Rightarrow>
               if vertex P h \<noteq> vertex P v then Raised Assertion_violation s
               else
                 let t1 = triangle_at P h;
                     t2 = triangle_at P v;
                     s1 = segment_after P h;
                     s2 = segment_after P v
                 in on_answer (do_intersect_ts K t1 s2) s
                      (write_pair it s t1 t2)
                      (on_answer (do_intersect_ts K t2 s1) s
                         (write_pair it s t1 t2)
                         (Done s))
           | None \<Rightarrow>
               let t1 = triangle_at P h;
                   t2 = triangle_at P g
               in on_answer (do_intersect_tt K t1 t2) s
                    (write_pair it s t1 t2)
                    (Done s))"

subsection \<open>The two overloads of \<^verbatim>\<open>self_intersect\<close>\<close>

text \<open>Lines 158 to 169: one box per facet.\<close>

definition facet_box :: "Polyhedron \<Rightarrow> Facet_handle \<Rightarrow> Box" where
  "facet_box P f =
     \<lparr>bbox = bbox_plus
               (bbox_plus (point_bbox (point P (vertex P (halfedge P f))))
                          (point_bbox (point P (vertex P (next P (halfedge P f))))))
               (point_bbox (point P (vertex P (next P (next P (halfedge P f)))))),
      handle = f\<rparr>"

definition make_boxes :: "Polyhedron \<Rightarrow> Box list" where
  "make_boxes P = map (facet_box P) (facets P)"

text \<open>
  \<^verbatim>\<open>CGAL::box_self_intersection_d\<close> is a parameter: a function from the range of
  box pointers and the cutoff to the sequence of pairs it would hand to the callback. The
  boxes are immutable, so a pointer to a box is modelled by the box. An exception of the
  callback leaves the sweep, and no later pair is visited.
\<close>

type_synonym Broad_phase = "Box list \<Rightarrow> int \<Rightarrow> (Box \<times> Box) list"

fun visit_pairs ::
  "('s \<Rightarrow> Box \<Rightarrow> Box \<Rightarrow> ('e, 's) outcome) \<Rightarrow> (Box \<times> Box) list \<Rightarrow> 's \<Rightarrow> ('e, 's) outcome" where
  "visit_pairs callback [] s = Done s"
| "visit_pairs callback ((b, c) # ps) s =
     (case callback s b c of
        Raised e s' \<Rightarrow> Raised e s'
      | Done s' \<Rightarrow> visit_pairs callback ps s')"

definition self_intersect ::
  "Polyhedron \<Rightarrow> 'e Kernel \<Rightarrow> Broad_phase \<Rightarrow> ('e, 's) OutputIterator \<Rightarrow> 's \<Rightarrow> ('e, 's) outcome" where
  "self_intersect P K sweep out s =
     (if \<not> is_pure_triangle P then Raised Assertion_violation s
      else
        let boxes = make_boxes P;
            box_ptr = boxes;
            cutoff = 2000
        in visit_pairs (Intersect_facets P K out) (sweep box_ptr cutoff) s)"

text \<open>The boolean overload: only the exception of \<^verbatim>\<open>Throw_at_output\<close> is caught.\<close>

definition self_intersect_bool ::
  "Polyhedron \<Rightarrow> 'e Kernel \<Rightarrow> Broad_phase \<Rightarrow> 'e failure + bool" where
  "self_intersect_bool P K sweep =
     (case self_intersect P K sweep Throw_at_output () of
        Raised Throw_at_output_exception u \<Rightarrow> Inr True
      | Raised e u \<Rightarrow> Inl e
      | Done u \<Rightarrow> Inr False)"

subsection \<open>The words of the specification\<close>

text \<open>The three boundary half-edges of a facet in cyclic order, from a given one, and
  the vertices they point to.\<close>

definition facet_halfedges :: "Polyhedron \<Rightarrow> Halfedge_handle \<Rightarrow> Halfedge_handle list" where
  "facet_halfedges P h = [h, next P h, next P (next P h)]"

definition facet_vertices :: "Polyhedron \<Rightarrow> Facet_handle \<Rightarrow> Vertex_handle list" where
  "facet_vertices P f = map (vertex P) (facet_halfedges P (halfedge P f))"

text \<open>
  The specification's scan: nine comparisons, for each of A's vertices in cyclic order
  against each of B's vertices in cyclic order, stopping at the first equal pair.
\<close>

definition traversal_order ::
  "Polyhedron \<Rightarrow> Halfedge_handle \<Rightarrow> Halfedge_handle
     \<Rightarrow> (Halfedge_handle \<times> Halfedge_handle) list" where
  "traversal_order P h g = List.product (facet_halfedges P h) (facet_halfedges P g)"

definition first_equal_pair ::
  "Polyhedron \<Rightarrow> Halfedge_handle \<Rightarrow> Halfedge_handle
     \<Rightarrow> (Halfedge_handle \<times> Halfedge_handle) option" where
  "first_equal_pair P h g =
     find (\<lambda>(a, b). vertex P a = vertex P b) (traversal_order P h g)"

text \<open>The unordered pair of facets of a candidate pair of boxes.\<close>

definition unordered_facets :: "Box \<times> Box \<Rightarrow> Facet_handle set" where
  "unordered_facets bc = {handle (fst bc), handle (snd bc)}"

text \<open>What the operator writes for one candidate pair, on an empty output sequence.\<close>

definition written_for :: "Polyhedron \<Rightarrow> 'e Kernel \<Rightarrow> Box \<times> Box \<Rightarrow> Triangle_3 list" where
  "written_for P K bc = output_of (Intersect_facets P K back_inserter [] (fst bc) (snd bc))"

text \<open>Moving an outcome of the appending iterator behind an earlier output.\<close>

fun behind :: "Triangle_3 list \<Rightarrow> ('e, Triangle_3 list) outcome \<Rightarrow> ('e, Triangle_3 list) outcome" where
  "behind out (Done ys) = Done (out @ ys)"
| "behind out (Raised e ys) = Raised e (out @ ys)"

text \<open>The same outcome on another output: an exception stays, a normal return writes
  what the appending iterator wrote.\<close>

fun replay ::
  "('e, 's) OutputIterator \<Rightarrow> 's \<Rightarrow> ('e, Triangle_3 list) outcome \<Rightarrow> ('e, 's) outcome" where
  "replay it s (Raised e ts) = Raised e s"
| "replay it s (Done []) = Done s"
| "replay it s (Done [t]) = it s t"
| "replay it s (Done (t1 # t2 # ts)) = write_pair it s t1 t2"

text \<open>The outcome of the sweep with the throwing iterator, read off the outcome of the
  sweep with the appending iterator.\<close>

fun thrown :: "('e, Triangle_3 list) outcome \<Rightarrow> ('e, unit) outcome" where
  "thrown (Done []) = Done ()"
| "thrown (Raised e []) = Raised e ()"
| "thrown (Done (t # ts)) = Raised Throw_at_output_exception ()"
| "thrown (Raised e (t # ts)) = Raised Throw_at_output_exception ()"

subsection \<open>A reference sweep and a small kernel, for closed instances\<close>

text \<open>
  Modelled from the spec: the overlap test of the box sweep, which is not part of the
  sources at hand. Two boxes overlap when their intervals overlap on every axis, touching
  included.
\<close>

definition do_overlap :: "Bbox_3 \<Rightarrow> Bbox_3 \<Rightarrow> bool" where
  "do_overlap a b \<longleftrightarrow>
     xmin a \<le> xmax b \<and> xmin b \<le> xmax a \<and>
     ymin a \<le> ymax b \<and> ymin b \<le> ymax a \<and>
     zmin a \<le> zmax b \<and> zmin b \<le> zmax a"

text \<open>
  Modelled from the spec: the pairs the box sweep visits, every unordered pair of
  overlapping boxes exactly once and never a box against itself. The spec leaves the order
  open; this one goes by position in the range.
\<close>

fun all_pairs :: "Box list \<Rightarrow> (Box \<times> Box) list" where
  "all_pairs [] = []"
| "all_pairs (b # bs) =
     map (Pair b) (filter (\<lambda>c. do_overlap (bbox b) (bbox c)) bs) @ all_pairs bs"

text \<open>
  Modelled from the spec: \<^verbatim>\<open>CGAL::box_self_intersection_d\<close> is not part of the
  sources at hand. The spec has the cutoff tune the strategy only, never the pairs.
\<close>

definition box_self_intersection_d :: Broad_phase where
  "box_self_intersection_d box_ptr cutoff = all_pairs box_ptr"

text \<open>
  A kernel for the instances below. It decides by the signs of four-point determinants
  and fails where the segment lies in the plane of the triangle, a configuration it
  cannot classify.
\<close>

datatype example_failure = Coplanar

definition orientation :: "Point_3 \<Rightarrow> Point_3 \<Rightarrow> Point_3 \<Rightarrow> Point_3 \<Rightarrow> real" where
  "orientation a b c d =
     (px b - px a) * ((py c - py a) * (pz d - pz a) - (pz c - pz a) * (py d - py a))
     - (py b - py a) * ((px c - px a) * (pz d - pz a) - (pz c - pz a) * (px d - px a))
     + (pz b - pz a) * ((px c - px a) * (py d - py a) - (py c - py a) * (px d - px a))"

fun example_ts :: "Triangle_3 \<Rightarrow> Segment_3 \<Rightarrow> example_failure + bool" where
  "example_ts (Triangle a b c) (Segment p q) =
     (let dp = orientation a b c p;
          dq = orientation a b c q
      in if dp = 0 \<and> dq = 0 then Inl Coplanar
         else if (0 < dp \<and> 0 < dq) \<or> (dp < 0 \<and> dq < 0) then Inr False
         else
           let s1 = orientation p q a b;
               s2 = orientation p q b c;
               s3 = orientation p q c a
           in Inr ((0 \<le> s1 \<and> 0 \<le> s2 \<and> 0 \<le> s3) \<or> (s1 \<le> 0 \<and> s2 \<le> 0 \<and> s3 \<le> 0)))"

fun first_answer :: "(example_failure + bool) list \<Rightarrow> example_failure + bool" where
  "first_answer [] = Inr False"
| "first_answer (Inl e # rs) = Inl e"
| "first_answer (Inr ans # rs) = (if ans then Inr True else first_answer rs)"

fun example_tt :: "Triangle_3 \<Rightarrow> Triangle_3 \<Rightarrow> example_failure + bool" where
  "example_tt (Triangle a b c) (Triangle d e f) =
     first_answer
       [example_ts (Triangle a b c) (Segment d e),
        example_ts (Triangle a b c) (Segment e f),
        example_ts (Triangle a b c) (Segment f d),
        example_ts (Triangle d e f) (Segment a b),
        example_ts (Triangle d e f) (Segment b c),
        example_ts (Triangle d e f) (Segment c a)]"

definition example_kernel :: "example_failure Kernel" where
  "example_kernel = \<lparr>do_intersect_ts = example_ts, do_intersect_tt = example_tt\<rparr>"

text \<open>
  A strip of four triangles over six vertices, folded so that the last facet pierces the
  first: facets 0 and 1, 1 and 2, 2 and 3 share an edge, facets 0 and 2 share the vertex 2
  only, facets 1 and 3 share the vertex 3 only, facets 0 and 3 share nothing. Half-edges
  0 to 11 bound the facets, three each; half-edges 12 to 17 are the border.
\<close>

definition strip_points :: "Point_3 list" where
  "strip_points =
     [\<lparr>px = 0, py = 0, pz = 0\<rparr>, \<lparr>px = 4, py = 0, pz = 0\<rparr>, \<lparr>px = 0, py = 4, pz = 0\<rparr>,
      \<lparr>px = 4, py = 4, pz = 1\<rparr>, \<lparr>px = 1, py = 1, pz = 2\<rparr>, \<lparr>px = 1, py = 1, pz = - 1\<rparr>]"

definition strip :: Polyhedron where
  "strip =
     \<lparr>facets = [0, 1, 2, 3],
      halfedge = (\<lambda>f. 3 * f),
      next = (\<lambda>h. if h < 18
                    then [1, 2, 0, 4, 5, 3, 7, 8, 6, 10, 11, 9, 15, 12, 13, 17, 14, 16] ! h
                    else h),
      opposite = (\<lambda>h. if h < 18
                        then [12, 13, 4, 7, 2, 14, 15, 3, 9, 8, 16, 17, 0, 1, 5, 6, 10, 11] ! h
                        else h),
      vertex = (\<lambda>h. if h < 18
                      then [0, 1, 2, 2, 1, 3, 2, 3, 4, 3, 5, 4, 2, 0, 1, 4, 3, 5] ! h
                      else 0),
      facet = (\<lambda>h. if h < 12 then Some (h div 3) else None),
      point = (\<lambda>v. if v < 6 then strip_points ! v else \<lparr>px = 0, py = 0, pz = 0\<rparr>)\<rparr>"

text \<open>A mesh that is no triangulation: one facet bounded by four half-edges.\<close>

definition quad :: Polyhedron where
  "quad =
     \<lparr>facets = [0],
      halfedge = (\<lambda>f. 0),
      next = (\<lambda>h. if h < 8 then [1, 2, 3, 0, 7, 4, 5, 6] ! h else h),
      opposite = (\<lambda>h. if h < 8 then [4, 5, 6, 7, 0, 1, 2, 3] ! h else h),
      vertex = (\<lambda>h. if h < 8 then [0, 1, 2, 3, 3, 0, 1, 2] ! h else 0),
      facet = (\<lambda>h. if h < 4 then Some 0 else None),
      point = (\<lambda>v. if v < 4
                     then [\<lparr>px = 0, py = 0, pz = 0\<rparr>, \<lparr>px = 1, py = 0, pz = 0\<rparr>,
                           \<lparr>px = 1, py = 1, pz = 0\<rparr>, \<lparr>px = 0, py = 1, pz = 0\<rparr>] ! v
                     else \<lparr>px = 0, py = 0, pz = 0\<rparr>)\<rparr>"

text \<open>The strip laid out flat in the plane \<open>z = 0\<close>, without any fold: every segment
  lies in the plane of every triangle.\<close>

definition flat_points :: "Point_3 list" where
  "flat_points =
     [\<lparr>px = 0, py = 0, pz = 0\<rparr>, \<lparr>px = 4, py = 0, pz = 0\<rparr>, \<lparr>px = 0, py = 4, pz = 0\<rparr>,
      \<lparr>px = 4, py = 4, pz = 0\<rparr>, \<lparr>px = 0, py = 8, pz = 0\<rparr>, \<lparr>px = 4, py = 8, pz = 0\<rparr>]"

definition flat :: Polyhedron where
  "flat = strip\<lparr>point := (\<lambda>v. if v < 6 then flat_points ! v else \<lparr>px = 0, py = 0, pz = 0\<rparr>)\<rparr>"

text \<open>Two facets of which the second has the same vertex at two of its half-edges, and
  shares it with the first: such a facet has an edge from a vertex to itself.\<close>

definition pinched :: Polyhedron where
  "pinched =
     \<lparr>facets = [0, 1],
      halfedge = (\<lambda>f. 3 * f),
      next = (\<lambda>h. if h < 6 then [1, 2, 0, 4, 5, 3] ! h else h),
      opposite = (\<lambda>h. if h < 6 then h + 6 else h - 6),
      vertex = (\<lambda>h. if h < 6 then [0, 1, 2, 0, 0, 3] ! h else 0),
      facet = (\<lambda>h. if h < 6 then Some (h div 3) else None),
      point = (\<lambda>v. if v < 4
                     then [\<lparr>px = 0, py = 0, pz = 0\<rparr>, \<lparr>px = 1, py = 0, pz = 0\<rparr>,
                           \<lparr>px = 0, py = 1, pz = 0\<rparr>, \<lparr>px = 0, py = 0, pz = 1\<rparr>] ! v
                     else \<lparr>px = 0, py = 0, pz = 0\<rparr>)\<rparr>"

section \<open>Auxiliary facts\<close>

subsection \<open>The output iterators\<close>

lemma write_pair_back_inserter:
  "write_pair back_inserter out t1 t2 = Done (out @ [t1, t2])"
  by (simp add: write_pair_def back_inserter_def)

lemma write_pair_Throw_at_output:
  "write_pair Throw_at_output u t1 t2 = Raised Throw_at_output_exception u"
  by (simp add: write_pair_def Throw_at_output_def)

subsection \<open>The scan for a shared vertex\<close>

lemma match_vertex_None_iff:
  "match_vertex P h g None = None \<longleftrightarrow> vertex P h \<notin> vertex P ` set (facet_halfedges P g)"
  by (auto simp: match_vertex_def facet_halfedges_def Let_def)

lemma match_vertex_Some:
  assumes "match_vertex P h g None = Some v"
  shows "v \<in> set (facet_halfedges P g) \<and> vertex P v = vertex P h"
  using assms by (auto simp: match_vertex_def facet_halfedges_def Let_def split: if_splits)

lemma match_vertex_distinct:
  assumes "distinct (map (vertex P) (facet_halfedges P g))"
      and "b \<in> set (facet_halfedges P g)" and "vertex P h = vertex P b"
  shows "match_vertex P h g None = Some b"
  using assms by (auto simp: match_vertex_def facet_halfedges_def Let_def)

lemma find_shared_vertex_rows:
  "find_shared_vertex P h g =
     (case match_vertex P h g None of
        Some v \<Rightarrow> (h, Some v)
      | None \<Rightarrow>
         (case match_vertex P (next P h) g None of
            Some v \<Rightarrow> (next P h, Some v)
          | None \<Rightarrow> (next P (next P h), match_vertex P (next P (next P h)) g None)))"
  by (simp add: find_shared_vertex_def Let_def split: option.splits)

lemma find_shared_vertex_Some:
  assumes "find_shared_vertex P h g = (a, Some v)"
  shows "a \<in> set (facet_halfedges P h) \<and> v \<in> set (facet_halfedges P g)
           \<and> vertex P a = vertex P v"
proof -
  from assms have "match_vertex P a g None = Some v \<and> a \<in> set (facet_halfedges P h)"
    by (auto simp: find_shared_vertex_rows facet_halfedges_def split: option.splits)
  with match_vertex_Some [of P a g v] show ?thesis by simp
qed

lemma find_shared_vertex_None:
  assumes "find_shared_vertex P h g = (a, None)"
  shows "a = next P (next P h)
           \<and> set (map (vertex P) (facet_halfedges P h)) \<inter> set (map (vertex P) (facet_halfedges P g)) = {}"
proof -
  from assms have "match_vertex P h g None = None" "match_vertex P (next P h) g None = None"
    "match_vertex P (next P (next P h)) g None = None" "a = next P (next P h)"
    by (auto simp: find_shared_vertex_rows split: option.splits)
  then show ?thesis
    by (auto simp: match_vertex_None_iff facet_halfedges_def)
qed

lemma find_shared_vertex_found:
  assumes "set (map (vertex P) (facet_halfedges P h)) \<inter> set (map (vertex P) (facet_halfedges P g)) \<noteq> {}"
  shows "\<exists>a v. find_shared_vertex P h g = (a, Some v)"
proof (cases "find_shared_vertex P h g")
  case (Pair a ov)
  show ?thesis
  proof (cases ov)
    case None
    with Pair find_shared_vertex_None [of P h g a] assms show ?thesis by simp
  next
    case (Some v)
    with Pair show ?thesis by simp
  qed
qed

lemma first_equal_pair_rows:
  "first_equal_pair P h g =
     (case find (\<lambda>b. vertex P h = vertex P b) (facet_halfedges P g) of
        Some b \<Rightarrow> Some (h, b)
      | None \<Rightarrow>
         (case find (\<lambda>b. vertex P (next P h) = vertex P b) (facet_halfedges P g) of
            Some b \<Rightarrow> Some (next P h, b)
          | None \<Rightarrow>
             (case find (\<lambda>b. vertex P (next P (next P h)) = vertex P b) (facet_halfedges P g) of
                Some b \<Rightarrow> Some (next P (next P h), b)
              | None \<Rightarrow> None)))"
  by (simp add: first_equal_pair_def traversal_order_def facet_halfedges_def)

text \<open>One row of the scan in the code against the first match of the row.\<close>

lemma match_vertex_first_match:
  "(case find (\<lambda>b. vertex P a = vertex P b) (facet_halfedges P g) of
      None \<Rightarrow> match_vertex P a g None = None
    | Some b \<Rightarrow>
        (\<exists>w. match_vertex P a g None = Some w
            \<and> vertex P w = vertex P b \<and> vertex P a = vertex P b
            \<and> w \<in> set (facet_halfedges P g)
            \<and> (distinct (map (vertex P) (facet_halfedges P g)) \<longrightarrow> w = b)))"
proof (cases "find (\<lambda>b. vertex P a = vertex P b) (facet_halfedges P g)")
  case None
  then have "match_vertex P a g None = None"
    by (auto simp: match_vertex_None_iff find_None_iff)
  with None show ?thesis by simp
next
  case (Some b)
  then have b: "b \<in> set (facet_halfedges P g)" "vertex P a = vertex P b"
    by (auto simp: find_Some_iff)
  then have "match_vertex P a g None \<noteq> None"
    by (auto simp: match_vertex_None_iff)
  then obtain v where v: "match_vertex P a g None = Some v" by auto
  from match_vertex_Some [OF v] b match_vertex_distinct [OF _ b] v
  have "vertex P v = vertex P b" "v \<in> set (facet_halfedges P g)"
       "distinct (map (vertex P) (facet_halfedges P g)) \<longrightarrow> v = b"
    by auto
  with Some v b show ?thesis by simp
qed

subsection \<open>The operator by cases\<close>

lemma shared_edge_gives_nothing:
  assumes "shared_edge P (halfedge P (handle b)) (handle c)"
  shows "Intersect_facets P K it s b c = Done s"
  using assms by (simp add: Intersect_facets_def)

lemma Intersect_facets_shared_vertex:
  assumes "\<not> shared_edge P (halfedge P (handle b)) (handle c)"
      and "find_shared_vertex P (halfedge P (handle b)) (halfedge P (handle c)) = (h, Some v)"
  shows "Intersect_facets P K it s b c =
           on_answer (do_intersect_ts K (triangle_at P h) (segment_after P v)) s
             (write_pair it s (triangle_at P h) (triangle_at P v))
             (on_answer (do_intersect_ts K (triangle_at P v) (segment_after P h)) s
                (write_pair it s (triangle_at P h) (triangle_at P v))
                (Done s))"
proof -
  from find_shared_vertex_Some [OF assms(2)] have "vertex P h = vertex P v" by simp
  with assms show ?thesis
    by (simp add: Intersect_facets_def Let_def)
qed

lemma Intersect_facets_general:
  assumes "\<not> shared_edge P (halfedge P (handle b)) (handle c)"
      and "find_shared_vertex P (halfedge P (handle b)) (halfedge P (handle c)) = (h, None)"
  shows "Intersect_facets P K it s b c =
           on_answer (do_intersect_tt K (triangle_at P h) (triangle_at P (halfedge P (handle c)))) s
             (write_pair it s (triangle_at P h) (triangle_at P (halfedge P (handle c))))
             (Done s)"
  using assms by (simp add: Intersect_facets_def Let_def)

lemma Intersect_facets_replay:
  "Intersect_facets P K it s b c = replay it s (Intersect_facets P K back_inserter [] b c)"
proof (cases "shared_edge P (halfedge P (handle b)) (handle c)")
  case True
  then show ?thesis by (simp add: Intersect_facets_def)
next
  case False
  obtain h ov where f: "find_shared_vertex P (halfedge P (handle b)) (halfedge P (handle c)) = (h, ov)"
    by (cases "find_shared_vertex P (halfedge P (handle b)) (halfedge P (handle c))")
  show ?thesis
  proof (cases ov)
    case None
    with f False show ?thesis
      by (simp add: Intersect_facets_general on_answer_def write_pair_back_inserter
               split: sum.splits)
  next
    case (Some v)
    with f False show ?thesis
      by (simp add: Intersect_facets_shared_vertex on_answer_def write_pair_back_inserter
               split: sum.splits)
  qed
qed

lemma Intersect_facets_back_inserter_cases:
  "Intersect_facets P K back_inserter out b c = Done out
   \<or> (\<exists>t1 t2. Intersect_facets P K back_inserter out b c = Done (out @ [t1, t2]))
   \<or> (\<exists>e. Intersect_facets P K back_inserter out b c = Raised (Predicate_failure e) out)"
proof (cases "shared_edge P (halfedge P (handle b)) (handle c)")
  case True
  then show ?thesis by (simp add: Intersect_facets_def)
next
  case False
  obtain h ov where f: "find_shared_vertex P (halfedge P (handle b)) (halfedge P (handle c)) = (h, ov)"
    by (cases "find_shared_vertex P (halfedge P (handle b)) (halfedge P (handle c))")
  show ?thesis
  proof (cases ov)
    case None
    with f False show ?thesis
      by (simp add: Intersect_facets_general on_answer_def write_pair_back_inserter
               split: sum.splits)
  next
    case (Some v)
    with f False show ?thesis
      by (simp add: Intersect_facets_shared_vertex on_answer_def write_pair_back_inserter
               split: sum.splits)
  qed
qed

lemma Intersect_facets_predicate_fails:
  assumes "\<not> shared_edge P (halfedge P (handle b)) (handle c)"
      and "find_shared_vertex P (halfedge P (handle b)) (halfedge P (handle c)) = (h, ov)"
      and "case ov of
             Some v \<Rightarrow>
               do_intersect_ts K (triangle_at P h) (segment_after P v) = Inl e
               \<or> (do_intersect_ts K (triangle_at P h) (segment_after P v) = Inr False
                  \<and> do_intersect_ts K (triangle_at P v) (segment_after P h) = Inl e)
           | None \<Rightarrow>
               do_intersect_tt K (triangle_at P h) (triangle_at P (halfedge P (handle c))) = Inl e"
  shows "Intersect_facets P K it s b c = Raised (Predicate_failure e) s"
proof (cases ov)
  case None
  with assms show ?thesis
    by (simp add: Intersect_facets_general on_answer_def)
next
  case (Some v)
  with assms(2) have f: "find_shared_vertex P (halfedge P (handle b)) (halfedge P (handle c))
      = (h, Some v)" by simp
  from assms(3) Some show ?thesis
    unfolding Intersect_facets_shared_vertex [OF assms(1) f]
    by (auto simp: on_answer_def)
qed

lemma Intersect_facets_Raised_from_kernel:
  assumes "Intersect_facets P K back_inserter out b c = Raised x ys"
  shows "\<exists>e. x = Predicate_failure e
           \<and> ((\<exists>t sg. do_intersect_ts K t sg = Inl e) \<or> (\<exists>t u. do_intersect_tt K t u = Inl e))"
proof (cases "shared_edge P (halfedge P (handle b)) (handle c)")
  case True
  with assms show ?thesis by (simp add: Intersect_facets_def)
next
  case False
  obtain h ov where
    f: "find_shared_vertex P (halfedge P (handle b)) (halfedge P (handle c)) = (h, ov)"
    by (cases "find_shared_vertex P (halfedge P (handle b)) (halfedge P (handle c))")
  show ?thesis
  proof (cases ov)
    case None
    with f have f': "find_shared_vertex P (halfedge P (handle b)) (halfedge P (handle c))
        = (h, None)" by simp
    from assms show ?thesis
      unfolding Intersect_facets_general [OF False f']
      by (auto simp: on_answer_def write_pair_back_inserter split: sum.splits if_splits)
  next
    case (Some v)
    with f have f': "find_shared_vertex P (halfedge P (handle b)) (halfedge P (handle c))
        = (h, Some v)" by simp
    from assms show ?thesis
      unfolding Intersect_facets_shared_vertex [OF False f']
      by (auto simp: on_answer_def write_pair_back_inserter split: sum.splits if_splits)
  qed
qed

lemma is_pure_triangle_facet:
  assumes "is_pure_triangle P" and "f \<in> set (facets P)"
  shows "next P (next P (next P (halfedge P f))) = halfedge P f"
  using assms by (auto simp: is_pure_triangle_def list_all_iff is_triangle_def)

subsection \<open>The sweep\<close>

lemma behind_behind: "behind out (behind ys r) = behind (out @ ys) r"
  by (cases r) simp_all

lemma output_of_behind: "output_of (behind out r) = out @ output_of r"
  by (cases r) simp_all

lemma Intersect_facets_behind:
  "Intersect_facets P K back_inserter out b c
     = behind out (Intersect_facets P K back_inserter [] b c)"
proof -
  from Intersect_facets_back_inserter_cases [of P K "[]" b c]
  show ?thesis
    by (subst Intersect_facets_replay) (auto simp: write_pair_back_inserter)
qed

lemma visit_pairs_behind:
  "visit_pairs (Intersect_facets P K back_inserter) ps out
     = behind out (visit_pairs (Intersect_facets P K back_inserter) ps [])"
proof (induction ps arbitrary: out)
  case Nil
  show ?case by simp
next
  case (Cons p ps)
  obtain b c where p: "p = (b, c)" by (cases p)
  show ?case
  proof (cases "Intersect_facets P K back_inserter [] b c")
    case (Done ys)
    then have "Intersect_facets P K back_inserter out b c = Done (out @ ys)"
      by (subst Intersect_facets_behind) simp
    with Done p Cons.IH [of "out @ ys"] Cons.IH [of ys] show ?thesis
      by (simp add: behind_behind)
  next
    case (Raised e ys)
    then have "Intersect_facets P K back_inserter out b c = Raised e (out @ ys)"
      by (subst Intersect_facets_behind) simp
    with Raised p show ?thesis by simp
  qed
qed

lemma visit_pairs_append:
  "visit_pairs f (ps @ qs) s =
     (case visit_pairs f ps s of
        Raised e s' \<Rightarrow> Raised e s'
      | Done s' \<Rightarrow> visit_pairs f qs s')"
  by (induction ps arbitrary: s) (auto split: outcome.splits)

lemma thrown_behind: "ys \<noteq> [] \<Longrightarrow> thrown (behind ys r) = Raised Throw_at_output_exception ()"
  by (cases r; cases ys) simp_all

lemma visit_pairs_Throw_at_output:
  "visit_pairs (Intersect_facets P K Throw_at_output) ps ()
     = thrown (visit_pairs (Intersect_facets P K back_inserter) ps [])"
proof (induction ps)
  case Nil
  show ?case by simp
next
  case (Cons p ps)
  obtain b c where p: "p = (b, c)" by (cases p)
  from Intersect_facets_back_inserter_cases [of P K "[]" b c] show ?case
  proof (elim disjE exE)
    assume n: "Intersect_facets P K back_inserter [] b c = Done []"
    then have "Intersect_facets P K Throw_at_output () b c = Done ()"
      by (subst Intersect_facets_replay) simp
    with n p Cons.IH show ?thesis by simp
  next
    fix t1 t2
    assume w: "Intersect_facets P K back_inserter [] b c = Done ([] @ [t1, t2])"
    then have "Intersect_facets P K Throw_at_output () b c = Raised Throw_at_output_exception ()"
      by (subst Intersect_facets_replay) (simp add: write_pair_Throw_at_output)
    with w p show ?thesis
      by (simp add: visit_pairs_behind [of P K ps "[t1, t2]"] thrown_behind)
  next
    fix e
    assume f: "Intersect_facets P K back_inserter [] b c = Raised (Predicate_failure e) []"
    then have "Intersect_facets P K Throw_at_output () b c = Raised (Predicate_failure e) ()"
      by (subst Intersect_facets_replay) simp
    with f p show ?thesis by simp
  qed
qed

lemma visit_pairs_no_Throw:
  "visit_pairs (Intersect_facets P K back_inserter) ps out \<noteq> Raised Throw_at_output_exception ys"
proof (induction ps arbitrary: out)
  case Nil
  show ?case by simp
next
  case (Cons p ps)
  obtain b c where p: "p = (b, c)" by (cases p)
  from Intersect_facets_back_inserter_cases [of P K out b c] p Cons.IH show ?case
    by (auto split: outcome.splits)
qed

lemma visit_pairs_no_Assertion:
  "visit_pairs (Intersect_facets P K back_inserter) ps out \<noteq> Raised Assertion_violation ys"
proof (induction ps arbitrary: out)
  case Nil
  show ?case by simp
next
  case (Cons p ps)
  obtain b c where p: "p = (b, c)" by (cases p)
  from Intersect_facets_back_inserter_cases [of P K out b c] p Cons.IH show ?case
    by (auto split: outcome.splits)
qed

lemma visit_pairs_Raised_from_kernel:
  assumes "visit_pairs (Intersect_facets P K back_inserter) ps out = Raised x ys"
  shows "\<exists>e. x = Predicate_failure e
           \<and> ((\<exists>t sg. do_intersect_ts K t sg = Inl e) \<or> (\<exists>t u. do_intersect_tt K t u = Inl e))"
  using assms
proof (induction ps arbitrary: out)
  case Nil
  then show ?case by simp
next
  case (Cons p ps)
  obtain b c where p: "p = (b, c)" by (cases p)
  show ?case
  proof (cases "Intersect_facets P K back_inserter out b c")
    case (Done out')
    with Cons.prems p have "visit_pairs (Intersect_facets P K back_inserter) ps out' = Raised x ys"
      by simp
    then show ?thesis by (rule Cons.IH)
  next
    case (Raised x' ys')
    with Cons.prems p have "Intersect_facets P K back_inserter out b c = Raised x ys"
      by simp
    then show ?thesis by (rule Intersect_facets_Raised_from_kernel)
  qed
qed

lemma self_intersect_bool_thrown:
  assumes "is_pure_triangle P"
  shows "self_intersect_bool P K sweep =
           (case thrown (self_intersect P K sweep back_inserter []) of
              Raised Throw_at_output_exception u \<Rightarrow> Inr True
            | Raised e u \<Rightarrow> Inl e
            | Done u \<Rightarrow> Inr False)"
  using assms
  by (simp add: self_intersect_bool_def self_intersect_def visit_pairs_Throw_at_output)

lemma self_intersect_no_Throw:
  "self_intersect P K sweep back_inserter [] \<noteq> Raised Throw_at_output_exception ys"
  by (simp add: self_intersect_def visit_pairs_no_Throw)

subsection \<open>What the enumeration writes\<close>

lemma written_for_length:
  "written_for P K p = [] \<or> length (written_for P K p) = 2"
  using Intersect_facets_back_inserter_cases [of P K "[]" "fst p" "snd p"]
  by (auto simp: written_for_def)

lemma visit_pairs_written:
  "\<exists>n. output_of (visit_pairs (Intersect_facets P K back_inserter) ps [])
          = concat (map (written_for P K) (take n ps))"
proof (induction ps)
  case Nil
  show ?case by simp
next
  case (Cons p ps)
  obtain b c where p: "p = (b, c)" by (cases p)
  from Cons.IH obtain n where
    n: "output_of (visit_pairs (Intersect_facets P K back_inserter) ps [])
          = concat (map (written_for P K) (take n ps))" ..
  show ?case
  proof (cases "Intersect_facets P K back_inserter [] b c")
    case (Done ys)
    with p n have "output_of (visit_pairs (Intersect_facets P K back_inserter) (p # ps) [])
          = concat (map (written_for P K) (take (Suc n) (p # ps)))"
      by (simp add: visit_pairs_behind [of P K ps ys] output_of_behind written_for_def)
    then show ?thesis ..
  next
    case (Raised e ys)
    with p have "output_of (visit_pairs (Intersect_facets P K back_inserter) (p # ps) [])
          = concat (map (written_for P K) (take (Suc 0) (p # ps)))"
      by (simp add: written_for_def)
    then show ?thesis ..
  qed
qed

lemma unordered_facets_inj_on:
  assumes "distinct (facets P)"
      and "set ps \<subseteq> set (make_boxes P) \<times> set (make_boxes P)"
      and "distinct (map (\<lambda>(b, c). {b, c}) ps)"
  shows "distinct (map unordered_facets ps)"
proof -
  have "map handle (make_boxes P) = facets P"
    by (simp add: make_boxes_def facet_box_def comp_def)
  with assms(1) have "distinct (map handle (make_boxes P))" by simp
  then have inj: "inj_on handle (set (make_boxes P))"
    by (simp add: distinct_map)
  from assms(3) have d: "distinct ps" and i: "inj_on (\<lambda>(b, c). {b, c}) (set ps)"
    by (simp_all add: distinct_map)
  have "inj_on unordered_facets (set ps)"
  proof (rule inj_onI)
    fix p q
    assume p: "p \<in> set ps" and q: "q \<in> set ps" and e: "unordered_facets p = unordered_facets q"
    obtain b c where pb: "p = (b, c)" by (cases p)
    obtain b' c' where qb: "q = (b', c')" by (cases q)
    from p q pb qb assms(2) have m: "b \<in> set (make_boxes P)" "c \<in> set (make_boxes P)"
      "b' \<in> set (make_boxes P)" "c' \<in> set (make_boxes P)"
      by auto
    from e pb qb have "(handle b = handle b' \<and> handle c = handle c')
        \<or> (handle b = handle c' \<and> handle c = handle b')"
      by (simp add: unordered_facets_def doubleton_eq_iff)
    with m have "(b = b' \<and> c = c') \<or> (b = c' \<and> c = b')"
      by (simp add: inj_on_eq_iff [OF inj])
    then have "{b, c} = {b', c'}" by auto
    then have "(case p of (b, c) \<Rightarrow> {b, c}) = (case q of (b, c) \<Rightarrow> {b, c})"
      by (simp add: pb qb)
    with p q show "p = q"
      by (simp add: inj_on_eq_iff [OF i])
  qed
  with d show ?thesis by (simp add: distinct_map)
qed

subsection \<open>The boxes\<close>

lemma facet_box_eq_iff: "facet_box P f = facet_box P g \<longleftrightarrow> f = g"
proof
  assume "facet_box P f = facet_box P g"
  then have "handle (facet_box P f) = handle (facet_box P g)" by simp
  then show "f = g" by (simp add: facet_box_def)
qed simp

lemma combination_bounds:
  fixes a b c lo hi u v w :: real
  assumes "0 \<le> a" "0 \<le> b" "0 \<le> c" "a + b + c = 1"
      and "lo \<le> u" "lo \<le> v" "lo \<le> w" "u \<le> hi" "v \<le> hi" "w \<le> hi"
  shows "lo \<le> a * u + b * v + c * w \<and> a * u + b * v + c * w \<le> hi"
proof -
  have "a * lo + b * lo + c * lo \<le> a * u + b * v + c * w"
    using assms by (intro add_mono mult_left_mono) simp_all
  moreover have "a * lo + b * lo + c * lo = (a + b + c) * lo"
    by (simp add: algebra_simps)
  moreover have "a * u + b * v + c * w \<le> a * hi + b * hi + c * hi"
    using assms by (intro add_mono mult_left_mono) simp_all
  moreover have "a * hi + b * hi + c * hi = (a + b + c) * hi"
    by (simp add: algebra_simps)
  ultimately show ?thesis using assms(4) by simp
qed

lemma combination_min_max:
  fixes a b c u v w :: real
  assumes "0 \<le> a" "0 \<le> b" "0 \<le> c" "a + b + c = 1"
  shows "min (min u v) w \<le> a * u + b * v + c * w"
    and "a * u + b * v + c * w \<le> max (max u v) w"
  using combination_bounds [OF assms, of "min (min u v) w" u v w "max (max u v) w"]
  by simp_all

lemma facet_box_bbox:
  "bbox (facet_box P f) =
     \<lparr>xmin = min (min (px (point P (vertex P (halfedge P f))))
                     (px (point P (vertex P (next P (halfedge P f))))))
                (px (point P (vertex P (next P (next P (halfedge P f)))))),
      ymin = min (min (py (point P (vertex P (halfedge P f))))
                     (py (point P (vertex P (next P (halfedge P f))))))
                (py (point P (vertex P (next P (next P (halfedge P f)))))),
      zmin = min (min (pz (point P (vertex P (halfedge P f))))
                     (pz (point P (vertex P (next P (halfedge P f))))))
                (pz (point P (vertex P (next P (next P (halfedge P f)))))),
      xmax = max (max (px (point P (vertex P (halfedge P f))))
                     (px (point P (vertex P (next P (halfedge P f))))))
                (px (point P (vertex P (next P (next P (halfedge P f)))))),
      ymax = max (max (py (point P (vertex P (halfedge P f))))
                     (py (point P (vertex P (next P (halfedge P f))))))
                (py (point P (vertex P (next P (next P (halfedge P f)))))),
      zmax = max (max (pz (point P (vertex P (halfedge P f))))
                     (pz (point P (vertex P (next P (halfedge P f))))))
                (pz (point P (vertex P (next P (next P (halfedge P f))))))\<rparr>"
  by (simp add: facet_box_def bbox_plus_def point_bbox_def)

lemma facet_box_contains:
  assumes "0 \<le> a" "0 \<le> b" "0 \<le> c" "a + b + c = 1"
  shows "bbox_contains (bbox (facet_box P f))
           (combination a b c (point P (vertex P (halfedge P f)))
              (point P (vertex P (next P (halfedge P f))))
              (point P (vertex P (next P (next P (halfedge P f))))))"
  unfolding facet_box_bbox bbox_contains_def combination_def
  by (simp add: combination_min_max [OF assms])

subsection \<open>The folded strip, evaluated\<close>

lemma strip_is_pure_triangle: "is_pure_triangle strip"
  by (simp add: is_pure_triangle_def is_triangle_def strip_def)

lemma strip_boxes:
  "make_boxes strip = [facet_box strip 0, facet_box strip 1, facet_box strip 2, facet_box strip 3]"
  by (simp add: make_boxes_def strip_def)

lemma strip_overlaps:
  "do_overlap (bbox (facet_box strip 0)) (bbox (facet_box strip 1))"
  "do_overlap (bbox (facet_box strip 0)) (bbox (facet_box strip 2))"
  "do_overlap (bbox (facet_box strip 0)) (bbox (facet_box strip 3))"
  "do_overlap (bbox (facet_box strip 1)) (bbox (facet_box strip 2))"
  "do_overlap (bbox (facet_box strip 1)) (bbox (facet_box strip 3))"
  "do_overlap (bbox (facet_box strip 2)) (bbox (facet_box strip 3))"
  by (simp_all add: do_overlap_def facet_box_def bbox_plus_def point_bbox_def strip_def
        strip_points_def)

lemma strip_candidates:
  "box_self_intersection_d (make_boxes strip) 2000 =
     [(facet_box strip 0, facet_box strip 1), (facet_box strip 0, facet_box strip 2),
      (facet_box strip 0, facet_box strip 3), (facet_box strip 1, facet_box strip 2),
      (facet_box strip 1, facet_box strip 3), (facet_box strip 2, facet_box strip 3)]"
  unfolding box_self_intersection_d_def strip_boxes
  by (simp del: One_nat_def add: strip_overlaps)

lemma strip_sweep_contract:
  "distinct (facets strip)"
  "set (box_self_intersection_d (make_boxes strip) 2000)
     \<subseteq> set (make_boxes strip) \<times> set (make_boxes strip)"
  "list_all (\<lambda>(b, c). b \<noteq> c) (box_self_intersection_d (make_boxes strip) 2000)"
  "distinct (map (\<lambda>(b, c). {b, c}) (box_self_intersection_d (make_boxes strip) 2000))"
proof -
  show "distinct (facets strip)" by (simp add: strip_def)
  show "set (box_self_intersection_d (make_boxes strip) 2000)
     \<subseteq> set (make_boxes strip) \<times> set (make_boxes strip)"
    unfolding strip_candidates unfolding strip_boxes by (simp del: One_nat_def)
  show "list_all (\<lambda>(b, c). b \<noteq> c) (box_self_intersection_d (make_boxes strip) 2000)"
    unfolding strip_candidates by (simp del: One_nat_def add: facet_box_eq_iff)
  show "distinct (map (\<lambda>(b, c). {b, c}) (box_self_intersection_d (make_boxes strip) 2000))"
    unfolding strip_candidates
    by (simp del: One_nat_def add: facet_box_eq_iff doubleton_eq_iff)
qed

lemma strip_shared_edges:
  "shared_edge strip (halfedge strip (handle (facet_box strip 0))) (handle (facet_box strip 1))"
  "shared_edge strip (halfedge strip (handle (facet_box strip 1))) (handle (facet_box strip 2))"
  "shared_edge strip (halfedge strip (handle (facet_box strip 2))) (handle (facet_box strip 3))"
  by (simp_all add: shared_edge_def strip_def facet_box_def)

lemma strip_first_equal_pair: "first_equal_pair strip 0 6 = Some (2, 6)"
  by (simp add: first_equal_pair_def traversal_order_def facet_halfedges_def strip_def)

lemma strip_facet_0_3:
  "handle (facet_box strip 0) \<in> set (facets strip)"
  "\<not> shared_edge strip (halfedge strip (handle (facet_box strip 0))) (handle (facet_box strip 3))"
  "set (facet_vertices strip (handle (facet_box strip 0)))
     \<inter> set (facet_vertices strip (handle (facet_box strip 3))) = {}"
  by (simp_all add: shared_edge_def facet_vertices_def facet_halfedges_def strip_def facet_box_def)

lemma strip_facet_1_3:
  "\<not> shared_edge strip (halfedge strip (handle (facet_box strip 1))) (handle (facet_box strip 3))"
  "set (facet_vertices strip (handle (facet_box strip 1)))
     \<inter> set (facet_vertices strip (handle (facet_box strip 3))) \<noteq> {}"
  by (simp_all add: shared_edge_def facet_vertices_def facet_halfedges_def strip_def facet_box_def)

lemma strip_shared_vertex_1_3:
  assumes "h \<in> set (facet_halfedges strip (halfedge strip (handle (facet_box strip 1))))"
      and "v \<in> set (facet_halfedges strip (halfedge strip (handle (facet_box strip 3))))"
      and "vertex strip h = vertex strip v"
  shows "h = 5 \<and> v = 9"
  using assms by (auto simp: facet_halfedges_def strip_def facet_box_def)

lemma strip_answers_1_3:
  "example_ts (triangle_at strip 5) (segment_after strip 9) = Inr False"
  "example_ts (triangle_at strip 9) (segment_after strip 5) = Inr True"
  by (simp_all add: triangle_at_def segment_after_def strip_def strip_points_def
        orientation_def Let_def)

lemma strip_answer_0_3:
  "do_intersect_tt example_kernel
     (Triangle (point strip (vertex strip (next strip (next strip (halfedge strip (handle (facet_box strip 0)))))))
               (point strip (vertex strip (halfedge strip (handle (facet_box strip 0)))))
               (point strip (vertex strip (next strip (halfedge strip (handle (facet_box strip 0)))))))
     (Triangle (point strip (vertex strip (halfedge strip (handle (facet_box strip 3)))))
               (point strip (vertex strip (next strip (halfedge strip (handle (facet_box strip 3))))))
               (point strip (vertex strip (next strip (next strip (halfedge strip (handle (facet_box strip 3))))))))
   = Inr True"
  by (simp add: example_kernel_def strip_def strip_points_def facet_box_def orientation_def Let_def)

lemma strip_triangles_0_3:
  "Triangle (point strip (vertex strip (next strip (next strip (halfedge strip (handle (facet_box strip 0)))))))
            (point strip (vertex strip (halfedge strip (handle (facet_box strip 0)))))
            (point strip (vertex strip (next strip (halfedge strip (handle (facet_box strip 0))))))
   = Triangle \<lparr>px = 0, py = 4, pz = 0\<rparr> \<lparr>px = 0, py = 0, pz = 0\<rparr> \<lparr>px = 4, py = 0, pz = 0\<rparr>"
  "Triangle (point strip (vertex strip (halfedge strip (handle (facet_box strip 3)))))
            (point strip (vertex strip (next strip (halfedge strip (handle (facet_box strip 3))))))
            (point strip (vertex strip (next strip (next strip (halfedge strip (handle (facet_box strip 3)))))))
   = Triangle \<lparr>px = 4, py = 4, pz = 1\<rparr> \<lparr>px = 1, py = 1, pz = - 1\<rparr> \<lparr>px = 1, py = 1, pz = 2\<rparr>"
  by (simp_all add: strip_def strip_points_def facet_box_def)

lemma strip_pair_0_2:
  "Intersect_facets strip example_kernel it s (facet_box strip 0) (facet_box strip 2) = Done s"
proof -
  have e: "\<not> shared_edge strip (halfedge strip (handle (facet_box strip 0)))
             (handle (facet_box strip 2))"
    by (simp add: shared_edge_def strip_def facet_box_def)
  have f: "find_shared_vertex strip (halfedge strip (handle (facet_box strip 0)))
             (halfedge strip (handle (facet_box strip 2))) = (2, Some 6)"
    by (simp add: find_shared_vertex_def match_vertex_def Let_def strip_def facet_box_def)
  have a: "example_ts (triangle_at strip 2) (segment_after strip 6) = Inr False"
          "example_ts (triangle_at strip 6) (segment_after strip 2) = Inr False"
    by (simp_all add: triangle_at_def segment_after_def strip_def strip_points_def
          orientation_def Let_def)
  show ?thesis
    unfolding Intersect_facets_shared_vertex [OF e f]
    by (simp add: example_kernel_def a on_answer_def)
qed

lemma strip_pair_0_3:
  "Intersect_facets strip example_kernel it s (facet_box strip 0) (facet_box strip 3)
     = write_pair it s (triangle_at strip 2) (triangle_at strip 9)"
proof -
  have f: "find_shared_vertex strip (halfedge strip (handle (facet_box strip 0)))
             (halfedge strip (handle (facet_box strip 3))) = (2, None)"
    by (simp add: find_shared_vertex_def match_vertex_def Let_def strip_def facet_box_def)
  have g: "halfedge strip (handle (facet_box strip 3)) = 9"
    by (simp add: strip_def facet_box_def)
  have a: "example_tt (triangle_at strip 2) (triangle_at strip 9) = Inr True"
    by (simp add: triangle_at_def strip_def strip_points_def orientation_def Let_def)
  show ?thesis
    unfolding Intersect_facets_general [OF strip_facet_0_3(2) f] g
    by (simp add: example_kernel_def a on_answer_def)
qed

lemma strip_pair_1_3:
  "Intersect_facets strip example_kernel it s (facet_box strip 1) (facet_box strip 3)
     = write_pair it s (triangle_at strip 5) (triangle_at strip 9)"
proof -
  have f: "find_shared_vertex strip (halfedge strip (handle (facet_box strip 1)))
             (halfedge strip (handle (facet_box strip 3))) = (5, Some 9)"
    by (simp add: find_shared_vertex_def match_vertex_def Let_def strip_def facet_box_def)
  show ?thesis
    unfolding Intersect_facets_shared_vertex [OF strip_facet_1_3(1) f]
    by (simp add: example_kernel_def strip_answers_1_3 on_answer_def)
qed

lemma strip_written_1_3:
  "Intersect_facets strip example_kernel back_inserter [] (facet_box strip 1) (facet_box strip 3)
     = Done [triangle_at strip 5, triangle_at strip 9]"
proof -
  have f: "find_shared_vertex strip (halfedge strip (handle (facet_box strip 1)))
             (halfedge strip (handle (facet_box strip 3))) = (5, Some 9)"
    by (simp add: find_shared_vertex_def match_vertex_def Let_def strip_def facet_box_def)
  show ?thesis
    unfolding Intersect_facets_shared_vertex [OF strip_facet_1_3(1) f]
    by (simp add: example_kernel_def strip_answers_1_3 on_answer_def write_pair_back_inserter)
qed

lemmas strip_pairs =
  shared_edge_gives_nothing [OF strip_shared_edges(1)]
  shared_edge_gives_nothing [OF strip_shared_edges(2)]
  shared_edge_gives_nothing [OF strip_shared_edges(3)]
  strip_pair_0_2 strip_pair_0_3 strip_pair_1_3

lemma strip_enumeration:
  "self_intersect strip example_kernel box_self_intersection_d back_inserter [] =
     Done [triangle_at strip 2, triangle_at strip 9, triangle_at strip 5, triangle_at strip 9]"
  unfolding self_intersect_def Let_def strip_candidates
  by (simp del: One_nat_def add: strip_is_pure_triangle strip_pairs write_pair_back_inserter)

subsection \<open>The flat strip, evaluated\<close>

lemma flat_is_pure_triangle: "is_pure_triangle flat"
  by (simp add: is_pure_triangle_def is_triangle_def flat_def strip_def)

lemma flat_boxes:
  "make_boxes flat = [facet_box flat 0, facet_box flat 1, facet_box flat 2, facet_box flat 3]"
  by (simp add: make_boxes_def flat_def strip_def)

lemma flat_overlaps:
  "do_overlap (bbox (facet_box flat 0)) (bbox (facet_box flat 1))"
  "do_overlap (bbox (facet_box flat 0)) (bbox (facet_box flat 2))"
  "do_overlap (bbox (facet_box flat 0)) (bbox (facet_box flat 3))"
  "do_overlap (bbox (facet_box flat 1)) (bbox (facet_box flat 2))"
  "do_overlap (bbox (facet_box flat 1)) (bbox (facet_box flat 3))"
  "do_overlap (bbox (facet_box flat 2)) (bbox (facet_box flat 3))"
  by (simp_all add: do_overlap_def facet_box_def bbox_plus_def point_bbox_def flat_def strip_def
        flat_points_def)

lemma flat_candidates:
  "box_self_intersection_d (make_boxes flat) 2000 =
     [(facet_box flat 0, facet_box flat 1)] @ (facet_box flat 0, facet_box flat 2) #
     [(facet_box flat 0, facet_box flat 3), (facet_box flat 1, facet_box flat 2),
      (facet_box flat 1, facet_box flat 3), (facet_box flat 2, facet_box flat 3)]"
  unfolding box_self_intersection_d_def flat_boxes
  by (simp del: One_nat_def add: flat_overlaps)

lemma flat_facet_0_2:
  "\<not> shared_edge flat (halfedge flat (handle (facet_box flat 0))) (handle (facet_box flat 2))"
  "find_shared_vertex flat (halfedge flat (handle (facet_box flat 0)))
     (halfedge flat (handle (facet_box flat 2))) = (2, Some 6)"
  "do_intersect_ts example_kernel (triangle_at flat 2) (segment_after flat 6) = Inl Coplanar"
  by (simp_all add: shared_edge_def find_shared_vertex_def match_vertex_def Let_def
        example_kernel_def triangle_at_def segment_after_def orientation_def
        flat_def strip_def flat_points_def facet_box_def)

lemma flat_facet_0_3:
  "\<not> shared_edge flat (halfedge flat (handle (facet_box flat 0))) (handle (facet_box flat 3))"
  "find_shared_vertex flat (halfedge flat (handle (facet_box flat 0)))
     (halfedge flat (handle (facet_box flat 3))) = (2, None)"
  "do_intersect_tt example_kernel (triangle_at flat 2)
     (triangle_at flat (halfedge flat (handle (facet_box flat 3)))) = Inl Coplanar"
  by (simp_all add: shared_edge_def find_shared_vertex_def match_vertex_def Let_def
        example_kernel_def triangle_at_def orientation_def
        flat_def strip_def flat_points_def facet_box_def)

lemma flat_pair_0_1:
  "Intersect_facets flat example_kernel it s (facet_box flat 0) (facet_box flat 1) = Done s"
proof -
  have "shared_edge flat (halfedge flat (handle (facet_box flat 0))) (handle (facet_box flat 1))"
    by (simp add: shared_edge_def flat_def strip_def facet_box_def)
  then show ?thesis by (rule shared_edge_gives_nothing)
qed

lemma flat_pair_0_2:
  "Intersect_facets flat example_kernel it s (facet_box flat 0) (facet_box flat 2)
     = Raised (Predicate_failure Coplanar) s"
proof -
  have e: "\<not> shared_edge flat (halfedge flat (handle (facet_box flat 0)))
             (handle (facet_box flat 2))"
    by (simp add: shared_edge_def flat_def strip_def facet_box_def)
  have f: "find_shared_vertex flat (halfedge flat (handle (facet_box flat 0)))
             (halfedge flat (handle (facet_box flat 2))) = (2, Some 6)"
    by (simp add: find_shared_vertex_def match_vertex_def Let_def flat_def strip_def facet_box_def)
  have a: "example_ts (triangle_at flat 2) (segment_after flat 6) = Inl Coplanar"
    by (simp add: triangle_at_def segment_after_def flat_def strip_def flat_points_def
          orientation_def Let_def)
  show ?thesis
    unfolding Intersect_facets_shared_vertex [OF e f]
    by (simp add: example_kernel_def a on_answer_def)
qed

subsection \<open>A facet with a repeated vertex\<close>

text \<open>In a row of the scan the three tests are not chained by \<^verbatim>\<open>else\<close>: where two
  half-edges of B point to the vertex found, the later one is kept. The vertex is the
  same; the half-edge of B, and with it the order in which B's points are listed, is not
  the one of the first equal pair.\<close>

lemma pinched_keeps_the_later_halfedge:
  "first_equal_pair pinched 0 3 = Some (0, 3) \<and> find_shared_vertex pinched 0 3 = (0, Some 4)"
  by (simp add: first_equal_pair_def traversal_order_def facet_halfedges_def
        find_shared_vertex_def match_vertex_def Let_def pinched_def)

section \<open>The claims\<close>

text \<open>
  C1. A candidate pair without a shared edge whose facets have a vertex in common: the
  operator settles on a half-edge \<open>h\<close> of A and a half-edge \<open>v\<close> of B that point to the
  same vertex V. With A's triangle and B's triangle listed from V, eA the segment between
  A's other two vertices and eB the segment between B's other two vertices, the pair is
  written when the kernel answers that A's triangle meets eB, or answers that it does not
  and that B's triangle meets eA; when both answers are no, nothing is written.
\<close>

theorem shared_vertex_verdict:
  assumes "\<not> shared_edge P (halfedge P (handle b)) (handle c)"
      and "set (facet_vertices P (handle b)) \<inter> set (facet_vertices P (handle c)) \<noteq> {}"
  shows "\<exists>h v. h \<in> set (facet_halfedges P (halfedge P (handle b)))
             \<and> v \<in> set (facet_halfedges P (halfedge P (handle c)))
             \<and> vertex P h = vertex P v
             \<and> (let V = point P (vertex P h);
                     a1 = point P (vertex P (next P h));
                     a2 = point P (vertex P (next P (next P h)));
                     b1 = point P (vertex P (next P v));
                     b2 = point P (vertex P (next P (next P v)));
                     A = Triangle V a1 a2; eA = Segment a1 a2;
                     B = Triangle V b1 b2; eB = Segment b1 b2
                 in (do_intersect_ts K A eB = Inr True
                       \<longrightarrow> Intersect_facets P K it s b c = write_pair it s A B)
                  \<and> (do_intersect_ts K A eB = Inr False \<longrightarrow> do_intersect_ts K B eA = Inr True
                       \<longrightarrow> Intersect_facets P K it s b c = write_pair it s A B)
                  \<and> (do_intersect_ts K A eB = Inr False \<longrightarrow> do_intersect_ts K B eA = Inr False
                       \<longrightarrow> Intersect_facets P K it s b c = Done s))"
proof -
  from assms(2) find_shared_vertex_found [of P "halfedge P (handle b)" "halfedge P (handle c)"]
  obtain h v where
    f: "find_shared_vertex P (halfedge P (handle b)) (halfedge P (handle c)) = (h, Some v)"
    by (auto simp: facet_vertices_def)
  note m = find_shared_vertex_Some [OF f]
  note i = Intersect_facets_shared_vertex [OF assms(1) f, of K it s]
  from m have eq: "vertex P v = vertex P h" by simp
  have "(let V = point P (vertex P h);
             a1 = point P (vertex P (next P h));
             a2 = point P (vertex P (next P (next P h)));
             b1 = point P (vertex P (next P v));
             b2 = point P (vertex P (next P (next P v)));
             A = Triangle V a1 a2; eA = Segment a1 a2;
             B = Triangle V b1 b2; eB = Segment b1 b2
         in (do_intersect_ts K A eB = Inr True
               \<longrightarrow> Intersect_facets P K it s b c = write_pair it s A B)
          \<and> (do_intersect_ts K A eB = Inr False \<longrightarrow> do_intersect_ts K B eA = Inr True
               \<longrightarrow> Intersect_facets P K it s b c = write_pair it s A B)
          \<and> (do_intersect_ts K A eB = Inr False \<longrightarrow> do_intersect_ts K B eA = Inr False
               \<longrightarrow> Intersect_facets P K it s b c = Done s))"
    unfolding i by (simp add: Let_def triangle_at_def segment_after_def on_answer_def eq)
  with m show ?thesis by blast
qed

theorem shared_vertex_verdict_witness:
  "\<not> shared_edge strip (halfedge strip (handle (facet_box strip 1))) (handle (facet_box strip 3))
   \<and> set (facet_vertices strip (handle (facet_box strip 1)))
       \<inter> set (facet_vertices strip (handle (facet_box strip 3))) \<noteq> {}
   \<and> Intersect_facets strip example_kernel back_inserter [] (facet_box strip 1) (facet_box strip 3)
       = Done [triangle_at strip 5, triangle_at strip 9]"
proof -
  from shared_vertex_verdict [OF strip_facet_1_3, of example_kernel back_inserter "[]"]
  obtain h v where
    hv: "h \<in> set (facet_halfedges strip (halfedge strip (handle (facet_box strip 1))))"
        "v \<in> set (facet_halfedges strip (halfedge strip (handle (facet_box strip 3))))"
        "vertex strip h = vertex strip v"
    and w: "do_intersect_ts example_kernel
              (Triangle (point strip (vertex strip h)) (point strip (vertex strip (next strip h)))
                 (point strip (vertex strip (next strip (next strip h)))))
              (Segment (point strip (vertex strip (next strip v)))
                 (point strip (vertex strip (next strip (next strip v))))) = Inr False
            \<longrightarrow> do_intersect_ts example_kernel
              (Triangle (point strip (vertex strip h)) (point strip (vertex strip (next strip v)))
                 (point strip (vertex strip (next strip (next strip v)))))
              (Segment (point strip (vertex strip (next strip h)))
                 (point strip (vertex strip (next strip (next strip h))))) = Inr True
            \<longrightarrow> Intersect_facets strip example_kernel back_inserter []
                  (facet_box strip 1) (facet_box strip 3)
                = write_pair back_inserter []
                    (Triangle (point strip (vertex strip h)) (point strip (vertex strip (next strip h)))
                       (point strip (vertex strip (next strip (next strip h)))))
                    (Triangle (point strip (vertex strip h)) (point strip (vertex strip (next strip v)))
                       (point strip (vertex strip (next strip (next strip v)))))"
    unfolding Let_def by blast
  from strip_shared_vertex_1_3 [OF hv] have e: "h = 5" "v = 9" by simp_all
  have v: "vertex strip 5 = vertex strip 9" by (simp add: strip_def)
  from w strip_answers_1_3
  have "Intersect_facets strip example_kernel back_inserter []
          (facet_box strip 1) (facet_box strip 3)
        = Done [triangle_at strip 5, triangle_at strip 9]"
    unfolding e
    by (simp add: example_kernel_def triangle_at_def segment_after_def v write_pair_back_inserter)
  with strip_facet_1_3 show ?thesis by simp
qed

text \<open>
  C2. When one of the three boundary half-edges of \<open>b\<close>'s facet has its opposite half-edge
  owned by \<open>c\<close>'s facet, the operator returns at once: nothing is written to the output
  and no kernel predicate is asked, whatever the geometry, the kernel and the output
  iterator are.
\<close>

theorem shared_edge_no_intersection:
  assumes "shared_edge P (halfedge P (handle b)) (handle c)"
  shows "Intersect_facets P K it s b c = Done s"
  using assms by (simp add: Intersect_facets_def)

theorem shared_edge_no_intersection_witness:
  "shared_edge strip (halfedge strip (handle (facet_box strip 0))) (handle (facet_box strip 1))
   \<and> Intersect_facets strip example_kernel back_inserter [] (facet_box strip 0) (facet_box strip 1)
       = Done []"
proof -
  have h: "shared_edge strip (halfedge strip (handle (facet_box strip 0)))
             (handle (facet_box strip 1))"
    by (simp add: shared_edge_def strip_def facet_box_def)
  from shared_edge_no_intersection [OF h] h show ?thesis by simp
qed

text \<open>
  C3. A candidate pair of a pure triangulation without a shared edge and without a
  shared vertex: the operator asks the kernel's triangle against triangle predicate for
  A's triangle and B's triangle. When the answer is yes it writes A's triangle and then
  B's triangle; when the answer is no it writes nothing. A's triangle is listed from the
  third half-edge of A, where the scan for a shared vertex has stopped, and B's triangle
  from B's first half-edge.
\<close>

theorem general_case_verdict:
  assumes "is_pure_triangle P" and "handle b \<in> set (facets P)"
      and "\<not> shared_edge P (halfedge P (handle b)) (handle c)"
      and "set (facet_vertices P (handle b)) \<inter> set (facet_vertices P (handle c)) = {}"
      and "do_intersect_tt K
             (Triangle (point P (vertex P (next P (next P (halfedge P (handle b))))))
                       (point P (vertex P (halfedge P (handle b))))
                       (point P (vertex P (next P (halfedge P (handle b))))))
             (Triangle (point P (vertex P (halfedge P (handle c))))
                       (point P (vertex P (next P (halfedge P (handle c)))))
                       (point P (vertex P (next P (next P (halfedge P (handle c)))))))
           = Inr ans"
  shows "Intersect_facets P K it s b c =
           (if ans
            then write_pair it s
              (Triangle (point P (vertex P (next P (next P (halfedge P (handle b))))))
                        (point P (vertex P (halfedge P (handle b))))
                        (point P (vertex P (next P (halfedge P (handle b))))))
              (Triangle (point P (vertex P (halfedge P (handle c))))
                        (point P (vertex P (next P (halfedge P (handle c)))))
                        (point P (vertex P (next P (next P (halfedge P (handle c)))))))
            else Done s)
         \<and> Intersect_facets P K back_inserter out b c =
           Done (if ans
            then out @
              [Triangle (point P (vertex P (next P (next P (halfedge P (handle b))))))
                        (point P (vertex P (halfedge P (handle b))))
                        (point P (vertex P (next P (halfedge P (handle b))))),
               Triangle (point P (vertex P (halfedge P (handle c))))
                        (point P (vertex P (next P (halfedge P (handle c)))))
                        (point P (vertex P (next P (next P (halfedge P (handle c))))))]
            else out)"
proof -
  obtain h ov where
    f: "find_shared_vertex P (halfedge P (handle b)) (halfedge P (handle c)) = (h, ov)"
    by (cases "find_shared_vertex P (halfedge P (handle b)) (halfedge P (handle c))")
  have "ov = None"
  proof (cases ov)
    case (Some v)
    with f find_shared_vertex_Some [of P _ _ h v] assms(4) show ?thesis
      by (auto simp: facet_vertices_def)
  qed simp
  with f have f': "find_shared_vertex P (halfedge P (handle b)) (halfedge P (handle c)) = (h, None)"
    by simp
  from find_shared_vertex_None [OF f'] have h: "h = next P (next P (halfedge P (handle b)))"
    by simp
  note cyc = is_pure_triangle_facet [OF assms(1,2)]
  have tA: "triangle_at P h =
      Triangle (point P (vertex P (next P (next P (halfedge P (handle b))))))
               (point P (vertex P (halfedge P (handle b))))
               (point P (vertex P (next P (halfedge P (handle b)))))"
    by (simp add: triangle_at_def h cyc)
  have tB: "triangle_at P (halfedge P (handle c)) =
      Triangle (point P (vertex P (halfedge P (handle c))))
               (point P (vertex P (next P (halfedge P (handle c)))))
               (point P (vertex P (next P (next P (halfedge P (handle c))))))"
    by (simp add: triangle_at_def)
  show ?thesis
    unfolding Intersect_facets_general [OF assms(3) f'] tA tB
    using assms(5) by (simp add: on_answer_def write_pair_back_inserter)
qed

theorem general_case_verdict_witness:
  "is_pure_triangle strip \<and> handle (facet_box strip 0) \<in> set (facets strip)
   \<and> \<not> shared_edge strip (halfedge strip (handle (facet_box strip 0))) (handle (facet_box strip 3))
   \<and> set (facet_vertices strip (handle (facet_box strip 0)))
       \<inter> set (facet_vertices strip (handle (facet_box strip 3))) = {}
   \<and> Intersect_facets strip example_kernel back_inserter [] (facet_box strip 0) (facet_box strip 3)
       = Done [Triangle \<lparr>px = 0, py = 4, pz = 0\<rparr> \<lparr>px = 0, py = 0, pz = 0\<rparr> \<lparr>px = 4, py = 0, pz = 0\<rparr>,
               Triangle \<lparr>px = 4, py = 4, pz = 1\<rparr> \<lparr>px = 1, py = 1, pz = - 1\<rparr> \<lparr>px = 1, py = 1, pz = 2\<rparr>]"
proof -
  note w = general_case_verdict [OF strip_is_pure_triangle strip_facet_0_3 strip_answer_0_3,
      of back_inserter "[]" "[]", THEN conjunct2]
  from w have "Intersect_facets strip example_kernel back_inserter [] (facet_box strip 0) (facet_box strip 3)
       = Done [Triangle \<lparr>px = 0, py = 4, pz = 0\<rparr> \<lparr>px = 0, py = 0, pz = 0\<rparr> \<lparr>px = 4, py = 0, pz = 0\<rparr>,
               Triangle \<lparr>px = 4, py = 4, pz = 1\<rparr> \<lparr>px = 1, py = 1, pz = - 1\<rparr> \<lparr>px = 1, py = 1, pz = 2\<rparr>]"
    unfolding strip_triangles_0_3 by simp
  with strip_is_pure_triangle strip_facet_0_3 show ?thesis by simp
qed

text \<open>
  C4. On a pure triangulation, with the same kernel and the same sweep, the boolean
  overload returns true exactly when the enumerating overload has written at least one
  pair of triangles to an output sequence that was empty, and returns false exactly when
  the enumerating overload returns normally with nothing written.
\<close>

theorem existence_agrees_with_enumeration:
  assumes "is_pure_triangle P"
  shows "(self_intersect_bool P K sweep = Inr True
            \<longleftrightarrow> output_of (self_intersect P K sweep back_inserter []) \<noteq> [])
       \<and> (self_intersect_bool P K sweep = Inr False
            \<longleftrightarrow> self_intersect P K sweep back_inserter [] = Done [])"
proof -
  let ?r = "self_intersect P K sweep back_inserter []"
  note nt = self_intersect_no_Throw [of P K sweep]
  show ?thesis
    unfolding self_intersect_bool_thrown [OF assms]
    using nt by (cases ?r rule: thrown.cases) (auto split: failure.splits)
qed

theorem existence_agrees_with_enumeration_witness:
  "is_pure_triangle strip
   \<and> output_of (self_intersect strip example_kernel box_self_intersection_d back_inserter []) \<noteq> []
   \<and> self_intersect_bool strip example_kernel box_self_intersection_d = Inr True"
proof -
  have o: "output_of (self_intersect strip example_kernel box_self_intersection_d back_inserter [])
             \<noteq> []"
    unfolding strip_enumeration by simp
  from existence_agrees_with_enumeration [OF strip_is_pure_triangle,
      of example_kernel box_self_intersection_d] o strip_is_pure_triangle
  show ?thesis by simp
qed

text \<open>
  C5. The boolean overload never hands the exception of \<^verbatim>\<open>Throw_at_output\<close> to its
  caller. At a candidate pair without a shared edge, when the kernel predicate that the
  operator asks fails with \<open>e\<close> (the first triangle against segment predicate, or the
  second one after the first has answered no, or in the general case the triangle against
  triangle predicate), the operator leaves with that failure \<open>e\<close>, writes nothing and asks
  nothing again, whatever the output iterator is. When the sweep of a pure triangulation
  comes to such a pair, the pairs before it having raised nothing, the enumerating overload
  ends with that same failure \<open>e\<close> and keeps what it has written; the boolean overload ends
  with that same failure \<open>e\<close> too when nothing was written before, and otherwise has
  returned true at an earlier pair and never asks the failing predicate. Conversely, an
  exception that leaves either overload is the failed assertion on a mesh that is no pure
  triangulation, or a failure that a kernel predicate has returned.
\<close>

theorem predicate_failure_propagates:
  "self_intersect_bool P K sweep \<noteq> Inl Throw_at_output_exception
   \<and> (\<not> shared_edge P (halfedge P (handle b)) (handle c)
        \<longrightarrow> find_shared_vertex P (halfedge P (handle b)) (halfedge P (handle c)) = (h, ov)
        \<longrightarrow> (case ov of
               Some v \<Rightarrow>
                 do_intersect_ts K (triangle_at P h) (segment_after P v) = Inl e
                 \<or> (do_intersect_ts K (triangle_at P h) (segment_after P v) = Inr False
                    \<and> do_intersect_ts K (triangle_at P v) (segment_after P h) = Inl e)
             | None \<Rightarrow>
                 do_intersect_tt K (triangle_at P h) (triangle_at P (halfedge P (handle c)))
                   = Inl e)
        \<longrightarrow> Intersect_facets P K it s b c = Raised (Predicate_failure e) s
            \<and> (is_pure_triangle P
                 \<longrightarrow> sweep (make_boxes P) 2000 = ps @ (b, c) # qs
                 \<longrightarrow> visit_pairs (Intersect_facets P K back_inserter) ps [] = Done out
                 \<longrightarrow> self_intersect P K sweep back_inserter [] = Raised (Predicate_failure e) out
                     \<and> self_intersect_bool P K sweep
                         = (if out = [] then Inl (Predicate_failure e) else Inr True)))
   \<and> (self_intersect_bool P K sweep = Inl x
          \<or> self_intersect P K sweep back_inserter [] = Raised x ys
        \<longrightarrow> x = Assertion_violation \<and> \<not> is_pure_triangle P
            \<or> (\<exists>e'. x = Predicate_failure e'
                  \<and> ((\<exists>t sg. do_intersect_ts K t sg = Inl e')
                     \<or> (\<exists>t u. do_intersect_tt K t u = Inl e'))))"
proof (intro conjI impI)
  show "self_intersect_bool P K sweep \<noteq> Inl Throw_at_output_exception"
    by (simp add: self_intersect_bool_def split: outcome.splits failure.splits)
next
  assume ne: "\<not> shared_edge P (halfedge P (handle b)) (handle c)"
    and f: "find_shared_vertex P (halfedge P (handle b)) (halfedge P (handle c)) = (h, ov)"
    and k: "case ov of
             Some v \<Rightarrow>
               do_intersect_ts K (triangle_at P h) (segment_after P v) = Inl e
               \<or> (do_intersect_ts K (triangle_at P h) (segment_after P v) = Inr False
                  \<and> do_intersect_ts K (triangle_at P v) (segment_after P h) = Inl e)
           | None \<Rightarrow>
               do_intersect_tt K (triangle_at P h) (triangle_at P (halfedge P (handle c))) = Inl e"
  note raises = Intersect_facets_predicate_fails [OF ne f k]
  show "Intersect_facets P K it s b c = Raised (Predicate_failure e) s"
    by (rule raises)
  assume pure: "is_pure_triangle P"
    and ps: "sweep (make_boxes P) 2000 = ps @ (b, c) # qs"
    and before: "visit_pairs (Intersect_facets P K back_inserter) ps [] = Done out"
  from pure ps before raises [of back_inserter out]
  show enum: "self_intersect P K sweep back_inserter [] = Raised (Predicate_failure e) out"
    by (simp add: self_intersect_def visit_pairs_append)
  show "self_intersect_bool P K sweep = (if out = [] then Inl (Predicate_failure e) else Inr True)"
    unfolding self_intersect_bool_thrown [OF pure] enum
    by (cases out) simp_all
next
  assume a: "self_intersect_bool P K sweep = Inl x
          \<or> self_intersect P K sweep back_inserter [] = Raised x ys"
  show "x = Assertion_violation \<and> \<not> is_pure_triangle P
            \<or> (\<exists>e'. x = Predicate_failure e'
                  \<and> ((\<exists>t sg. do_intersect_ts K t sg = Inl e')
                     \<or> (\<exists>t u. do_intersect_tt K t u = Inl e')))"
  proof (cases "is_pure_triangle P")
    case False
    with a show ?thesis
      by (auto simp: self_intersect_def self_intersect_bool_def)
  next
    case True
    have "\<exists>zs. visit_pairs (Intersect_facets P K back_inserter) (sweep (make_boxes P) 2000) []
            = Raised x zs"
      using a
    proof
      assume "self_intersect P K sweep back_inserter [] = Raised x ys"
      with True show ?thesis by (auto simp: self_intersect_def)
    next
      assume b: "self_intersect_bool P K sweep = Inl x"
      then show ?thesis
        unfolding self_intersect_bool_thrown [OF True]
        using True
        by (cases "self_intersect P K sweep back_inserter []" rule: thrown.cases)
           (auto simp: self_intersect_def split: failure.splits)
    qed
    then obtain zs where
      "visit_pairs (Intersect_facets P K back_inserter) (sweep (make_boxes P) 2000) []
         = Raised x zs" ..
    from visit_pairs_Raised_from_kernel [OF this] show ?thesis by blast
  qed
qed

theorem predicate_failure_propagates_witness:
  "\<not> shared_edge flat (halfedge flat (handle (facet_box flat 0))) (handle (facet_box flat 2))
   \<and> find_shared_vertex flat (halfedge flat (handle (facet_box flat 0)))
       (halfedge flat (handle (facet_box flat 2))) = (2, Some 6)
   \<and> do_intersect_ts example_kernel (triangle_at flat 2) (segment_after flat 6) = Inl Coplanar
   \<and> is_pure_triangle flat
   \<and> box_self_intersection_d (make_boxes flat) 2000 =
       [(facet_box flat 0, facet_box flat 1)] @ (facet_box flat 0, facet_box flat 2) #
       [(facet_box flat 0, facet_box flat 3), (facet_box flat 1, facet_box flat 2),
        (facet_box flat 1, facet_box flat 3), (facet_box flat 2, facet_box flat 3)]
   \<and> visit_pairs (Intersect_facets flat example_kernel back_inserter)
       [(facet_box flat 0, facet_box flat 1)] [] = Done []
   \<and> Intersect_facets flat example_kernel back_inserter [] (facet_box flat 0) (facet_box flat 2)
       = Raised (Predicate_failure Coplanar) []
   \<and> self_intersect flat example_kernel box_self_intersection_d back_inserter []
       = Raised (Predicate_failure Coplanar) []
   \<and> self_intersect_bool flat example_kernel box_self_intersection_d
       = Inl (Predicate_failure Coplanar)
   \<and> do_intersect_tt example_kernel (triangle_at flat 2)
       (triangle_at flat (halfedge flat (handle (facet_box flat 3)))) = Inl Coplanar
   \<and> Intersect_facets flat example_kernel Throw_at_output () (facet_box flat 0) (facet_box flat 3)
       = Raised (Predicate_failure Coplanar) ()"
proof -
  have v: "visit_pairs (Intersect_facets flat example_kernel back_inserter)
       [(facet_box flat 0, facet_box flat 1)] [] = Done []"
    by (simp del: One_nat_def add: flat_pair_0_1)
  have k: "case Some 6 of
             Some v \<Rightarrow>
               do_intersect_ts example_kernel (triangle_at flat 2) (segment_after flat v)
                 = Inl Coplanar
               \<or> (do_intersect_ts example_kernel (triangle_at flat 2) (segment_after flat v)
                    = Inr False
                  \<and> do_intersect_ts example_kernel (triangle_at flat v) (segment_after flat 2)
                    = Inl Coplanar)
           | None \<Rightarrow>
               do_intersect_tt example_kernel (triangle_at flat 2)
                 (triangle_at flat (halfedge flat (handle (facet_box flat 2)))) = Inl Coplanar"
    by (simp add: flat_facet_0_2(3))
  note w = predicate_failure_propagates
      [where P = flat and K = example_kernel and sweep = box_self_intersection_d
         and b = "facet_box flat 0" and c = "facet_box flat 2" and h = 2 and ov = "Some 6"
         and e = Coplanar and it = back_inserter and s = "[]"
         and ps = "[(facet_box flat 0, facet_box flat 1)]"
         and qs = "[(facet_box flat 0, facet_box flat 3), (facet_box flat 1, facet_box flat 2),
                    (facet_box flat 1, facet_box flat 3), (facet_box flat 2, facet_box flat 3)]"
         and out = "[]",
       THEN conjunct2, THEN conjunct1, rule_format, OF flat_facet_0_2(1,2) k]
  note w1 = w [THEN conjunct1]
  note w2 = w [THEN conjunct2, rule_format, OF flat_is_pure_triangle flat_candidates v]
  have k': "case None of
             Some v \<Rightarrow>
               do_intersect_ts example_kernel (triangle_at flat 2) (segment_after flat v)
                 = Inl Coplanar
               \<or> (do_intersect_ts example_kernel (triangle_at flat 2) (segment_after flat v)
                    = Inr False
                  \<and> do_intersect_ts example_kernel (triangle_at flat v) (segment_after flat 2)
                    = Inl Coplanar)
           | None \<Rightarrow>
               do_intersect_tt example_kernel (triangle_at flat 2)
                 (triangle_at flat (halfedge flat (handle (facet_box flat 3)))) = Inl Coplanar"
    by (simp add: flat_facet_0_3(3))
  note w3 = predicate_failure_propagates
      [where P = flat and K = example_kernel and sweep = box_self_intersection_d
         and b = "facet_box flat 0" and c = "facet_box flat 3" and h = 2 and ov = None
         and e = Coplanar and it = Throw_at_output and s = "()",
       THEN conjunct2, THEN conjunct1, rule_format, OF flat_facet_0_3(1,2) k',
       THEN conjunct1]
  from w1 w2 w3 flat_facet_0_2 flat_facet_0_3(3) flat_is_pure_triangle flat_candidates v
  show ?thesis by (intro conjI) simp_all
qed

text \<open>
  C6. The scan compares the vertices of A's three half-edges, in cyclic order from
  \<open>h\<close>, with the vertices of B's three half-edges, in cyclic order from \<open>g\<close>. When no
  pair of the nine is equal it finds nothing. Otherwise, with \<open>(a, b)\<close> the first equal
  pair in that order, it stops at A's half-edge \<open>a\<close> and selects a half-edge \<open>v\<close> of B at
  the same vertex, so the shared vertex V is the vertex of the first equal pair; and \<open>v\<close>
  is \<open>b\<close> itself when B's three vertices are pairwise distinct.
\<close>

theorem shared_vertex_is_first_equal_pair:
  "(case first_equal_pair P h g of
      None \<Rightarrow> snd (find_shared_vertex P h g) = None
    | Some (a, b) \<Rightarrow>
        (\<exists>v. find_shared_vertex P h g = (a, Some v)
            \<and> vertex P a = vertex P b \<and> vertex P v = vertex P b
            \<and> v \<in> set (facet_halfedges P g)
            \<and> (distinct (map (vertex P) (facet_halfedges P g)) \<longrightarrow> v = b)))"
proof -
  note r0 = match_vertex_first_match [of P h g]
  note r1 = match_vertex_first_match [of P "next P h" g]
  note r2 = match_vertex_first_match [of P "next P (next P h)" g]
  show ?thesis
    unfolding first_equal_pair_rows find_shared_vertex_rows
    using r0 r1 r2
    by (auto split: option.splits)
qed

theorem shared_vertex_is_first_equal_pair_witness:
  "first_equal_pair strip 0 6 = Some (2, 6)
   \<and> distinct (map (vertex strip) (facet_halfedges strip 6))
   \<and> find_shared_vertex strip 0 6 = (2, Some 6)"
proof -
  have d: "distinct (map (vertex strip) (facet_halfedges strip 6))"
    by (simp add: facet_halfedges_def strip_def)
  from shared_vertex_is_first_equal_pair [of strip 0 6] d
  have "find_shared_vertex strip 0 6 = (2, Some 6)"
    by (simp add: strip_first_equal_pair)
  with d show ?thesis
    by (simp add: strip_first_equal_pair)
qed

text \<open>
  C7. Let the facet iteration visit every facet once, and let the sweep hand over pairs
  of the given boxes, never a box with itself, and no unordered pair twice. Then what the
  enumerating overload writes to an empty output sequence is, in order, what the operator
  writes for each candidate pair of an initial part of the sweep; for each of them it
  writes nothing or one pair of triangles, the two facets of a candidate pair differ, and
  no unordered pair of facets comes twice among them.
\<close>

theorem enumeration_reports_each_pair_once:
  assumes "distinct (facets P)"
      and "set (sweep (make_boxes P) 2000) \<subseteq> set (make_boxes P) \<times> set (make_boxes P)"
      and "list_all (\<lambda>(b, c). b \<noteq> c) (sweep (make_boxes P) 2000)"
      and "distinct (map (\<lambda>(b, c). {b, c}) (sweep (make_boxes P) 2000))"
  shows "\<exists>n. output_of (self_intersect P K sweep back_inserter [])
               = concat (map (written_for P K) (take n (sweep (make_boxes P) 2000)))
           \<and> list_all (\<lambda>p. written_for P K p = [] \<or> length (written_for P K p) = 2)
               (take n (sweep (make_boxes P) 2000))
           \<and> list_all (\<lambda>p. handle (fst p) \<noteq> handle (snd p))
               (take n (sweep (make_boxes P) 2000))
           \<and> distinct (map unordered_facets (take n (sweep (make_boxes P) 2000)))"
proof -
  let ?ps = "sweep (make_boxes P) 2000"
  have "\<exists>n. output_of (self_intersect P K sweep back_inserter [])
          = concat (map (written_for P K) (take n ?ps))"
  proof (cases "is_pure_triangle P")
    case True
    with visit_pairs_written [of P K ?ps] show ?thesis
      by (simp add: self_intersect_def)
  next
    case False
    then have "output_of (self_intersect P K sweep back_inserter [])
          = concat (map (written_for P K) (take 0 ?ps))"
      by (simp add: self_intersect_def)
    then show ?thesis ..
  qed
  then obtain n where
    out: "output_of (self_intersect P K sweep back_inserter [])
          = concat (map (written_for P K) (take n ?ps))" ..
  have len: "list_all (\<lambda>p. written_for P K p = [] \<or> length (written_for P K p) = 2)
      (take n ?ps)"
    by (simp add: list_all_iff written_for_length)
  have "map handle (make_boxes P) = facets P"
    by (simp add: make_boxes_def facet_box_def comp_def)
  with assms(1) have "distinct (map handle (make_boxes P))" by simp
  then have inj: "inj_on handle (set (make_boxes P))"
    by (simp add: distinct_map)
  have two: "list_all (\<lambda>p. handle (fst p) \<noteq> handle (snd p)) (take n ?ps)"
    unfolding list_all_iff
  proof
    fix p
    assume "p \<in> set (take n ?ps)"
    then have m: "p \<in> set ?ps" by (rule in_set_takeD)
    with assms(3) have "fst p \<noteq> snd p"
      by (auto simp: list_all_iff)
    moreover from m assms(2) have "fst p \<in> set (make_boxes P)" "snd p \<in> set (make_boxes P)"
      by auto
    ultimately show "handle (fst p) \<noteq> handle (snd p)"
      by (simp add: inj_on_eq_iff [OF inj])
  qed
  from unordered_facets_inj_on [OF assms(1,2,4)] have "distinct (map unordered_facets ?ps)" .
  then have "distinct (take n (map unordered_facets ?ps))"
    by (rule distinct_take)
  then have "distinct (map unordered_facets (take n ?ps))"
    by (simp add: take_map)
  with out len two show ?thesis by (intro exI [of _ n] conjI)
qed

theorem enumeration_reports_each_pair_once_witness:
  "distinct (facets strip)
   \<and> set (box_self_intersection_d (make_boxes strip) 2000)
       \<subseteq> set (make_boxes strip) \<times> set (make_boxes strip)
   \<and> list_all (\<lambda>(b, c). b \<noteq> c) (box_self_intersection_d (make_boxes strip) 2000)
   \<and> distinct (map (\<lambda>(b, c). {b, c}) (box_self_intersection_d (make_boxes strip) 2000))
   \<and> (\<exists>n. output_of (self_intersect strip example_kernel box_self_intersection_d back_inserter [])
               = concat (map (written_for strip example_kernel)
                   (take n (box_self_intersection_d (make_boxes strip) 2000)))
           \<and> list_all (\<lambda>p. written_for strip example_kernel p = []
                            \<or> length (written_for strip example_kernel p) = 2)
               (take n (box_self_intersection_d (make_boxes strip) 2000))
           \<and> list_all (\<lambda>p. handle (fst p) \<noteq> handle (snd p))
               (take n (box_self_intersection_d (make_boxes strip) 2000))
           \<and> distinct (map unordered_facets
               (take n (box_self_intersection_d (make_boxes strip) 2000))))"
  using enumeration_reports_each_pair_once
      [where P = strip and sweep = box_self_intersection_d and K = example_kernel,
       OF strip_sweep_contract]
    strip_sweep_contract
  by (intro conjI)

text \<open>
  C8. The box builder makes one box for each facet, in the order of the facet iteration.
  The box at position \<open>i\<close> carries the handle of the facet at position \<open>i\<close>, its
  bounds are on each axis the least and the greatest coordinate of the facet's three
  vertex points, and it contains every point of the facet's triangle, that is every
  combination of the three points with non-negative weights of sum one.
\<close>

theorem one_box_per_facet:
  assumes "i < length (facets P)"
      and "0 \<le> a" "0 \<le> b" "0 \<le> c" "a + b + c = 1"
  shows "length (make_boxes P) = length (facets P)
       \<and> handle (make_boxes P ! i) = facets P ! i
       \<and> (let f = facets P ! i;
              p = point P (vertex P (halfedge P f));
              q = point P (vertex P (next P (halfedge P f)));
              r = point P (vertex P (next P (next P (halfedge P f))))
          in bbox (make_boxes P ! i) =
               \<lparr>xmin = min (min (px p) (px q)) (px r),
                ymin = min (min (py p) (py q)) (py r),
                zmin = min (min (pz p) (pz q)) (pz r),
                xmax = max (max (px p) (px q)) (px r),
                ymax = max (max (py p) (py q)) (py r),
                zmax = max (max (pz p) (pz q)) (pz r)\<rparr>
           \<and> bbox_contains (bbox (make_boxes P ! i)) (combination a b c p q r))"
proof -
  from assms(1) have b: "make_boxes P ! i = facet_box P (facets P ! i)"
    by (simp add: make_boxes_def)
  have h: "handle (facet_box P (facets P ! i)) = facets P ! i"
    by (simp add: facet_box_def)
  show ?thesis
    unfolding b Let_def
    using facet_box_contains [OF assms(2-5), of P "facets P ! i"] h
    by (simp add: facet_box_bbox [symmetric] make_boxes_def)
qed

theorem one_box_per_facet_witness:
  "(3::nat) < length (facets strip)
   \<and> (0::real) \<le> 1 / 4 \<and> (0::real) \<le> 1 / 4 \<and> (0::real) \<le> 1 / 2 \<and> (1 / 4 + 1 / 4 + 1 / 2 = (1::real))
   \<and> length (make_boxes strip) = 4
   \<and> handle (make_boxes strip ! 3) = 3
   \<and> bbox (make_boxes strip ! 3) =
       \<lparr>xmin = 1, ymin = 1, zmin = - 1, xmax = 4, ymax = 4, zmax = 2\<rparr>
   \<and> bbox_contains (bbox (make_boxes strip ! 3)) \<lparr>px = 7 / 4, py = 7 / 4, pz = 1\<rparr>"
proof -
  have l: "(3::nat) < length (facets strip)" by (simp add: strip_def)
  have f: "facets strip ! 3 = 3" "length (facets strip) = 4" by (simp_all add: strip_def)
  have p: "point strip (vertex strip (halfedge strip 3)) = \<lparr>px = 4, py = 4, pz = 1\<rparr>"
      "point strip (vertex strip (next strip (halfedge strip 3))) = \<lparr>px = 1, py = 1, pz = - 1\<rparr>"
      "point strip (vertex strip (next strip (next strip (halfedge strip 3))))
         = \<lparr>px = 1, py = 1, pz = 2\<rparr>"
    by (simp_all add: strip_def strip_points_def)
  from one_box_per_facet [OF l, of "1 / 4" "1 / 4" "1 / 2"]
  show ?thesis
    unfolding Let_def f p by (simp add: combination_def bbox_contains_def)
qed

text \<open>
  C9. The enumerating overload tests \<^verbatim>\<open>is_pure_triangle\<close> before anything else, and
  the boolean overload starts by calling it. On a mesh that is no pure triangulation both
  end with the failed assertion: no box is built, no pair is visited, no predicate is
  asked and nothing is written, whatever the kernel, the sweep and the output iterator
  are. A failed assertion leaves the two entry points in no other case, so it is never
  the result of the work on a pair.
\<close>

theorem precondition_checked_first:
  "(\<not> is_pure_triangle P
      \<longrightarrow> self_intersect P K sweep it s = Raised Assertion_violation s
        \<and> self_intersect_bool P K sweep = Inl Assertion_violation)
   \<and> (self_intersect_bool P K sweep = Inl Assertion_violation \<longleftrightarrow> \<not> is_pure_triangle P)
   \<and> ((\<exists>out. self_intersect P K sweep back_inserter [] = Raised Assertion_violation out)
        \<longleftrightarrow> \<not> is_pure_triangle P)"
proof (intro conjI impI)
  assume "\<not> is_pure_triangle P"
  then show "self_intersect P K sweep it s = Raised Assertion_violation s"
    and "self_intersect_bool P K sweep = Inl Assertion_violation"
    by (simp_all add: self_intersect_def self_intersect_bool_def)
next
  show "self_intersect_bool P K sweep = Inl Assertion_violation \<longleftrightarrow> \<not> is_pure_triangle P"
  proof (cases "is_pure_triangle P")
    case True
    have "visit_pairs (Intersect_facets P K back_inserter) (sweep (make_boxes P) 2000) []
            \<noteq> Raised Assertion_violation []"
      by (rule visit_pairs_no_Assertion)
    with True show ?thesis
      unfolding self_intersect_bool_thrown [OF True]
      by (cases "self_intersect P K sweep back_inserter []" rule: thrown.cases)
         (auto simp: self_intersect_def split: failure.splits)
  next
    case False
    then show ?thesis by (simp add: self_intersect_def self_intersect_bool_def)
  qed
next
  show "(\<exists>out. self_intersect P K sweep back_inserter [] = Raised Assertion_violation out)
          \<longleftrightarrow> \<not> is_pure_triangle P"
    by (simp add: self_intersect_def visit_pairs_no_Assertion)
qed

theorem precondition_checked_first_witness:
  "\<not> is_pure_triangle quad
   \<and> self_intersect quad example_kernel box_self_intersection_d back_inserter []
       = Raised Assertion_violation []
   \<and> self_intersect_bool quad example_kernel box_self_intersection_d = Inl Assertion_violation"
proof -
  have q: "\<not> is_pure_triangle quad"
    by (simp add: is_pure_triangle_def is_triangle_def quad_def)
  from precondition_checked_first [of quad example_kernel box_self_intersection_d
      back_inserter "[]", THEN conjunct1, rule_format, OF q] q
  show ?thesis by simp
qed

text \<open>
  C10. In the shared-vertex case, when the operator writes to the output sequence, it
  writes two triangles that both start with the point of the shared vertex V; the first
  goes on through A's half-edges after V, the second through B's half-edges after V, each
  in the cyclic order of its facet.
\<close>

theorem shared_vertex_triangles_start_at_V:
  assumes "\<not> shared_edge P (halfedge P (handle b)) (handle c)"
      and "set (facet_vertices P (handle b)) \<inter> set (facet_vertices P (handle c)) \<noteq> {}"
      and "output_of (Intersect_facets P K back_inserter out b c) \<noteq> out"
  shows "\<exists>h v. h \<in> set (facet_halfedges P (halfedge P (handle b)))
             \<and> v \<in> set (facet_halfedges P (halfedge P (handle c)))
             \<and> vertex P h = vertex P v
             \<and> Intersect_facets P K back_inserter out b c =
                 Done (out @
                   [Triangle (point P (vertex P h))
                             (point P (vertex P (next P h)))
                             (point P (vertex P (next P (next P h)))),
                    Triangle (point P (vertex P h))
                             (point P (vertex P (next P v)))
                             (point P (vertex P (next P (next P v))))])"
proof -
  from assms(2) find_shared_vertex_found [of P "halfedge P (handle b)" "halfedge P (handle c)"]
  obtain h v where
    f: "find_shared_vertex P (halfedge P (handle b)) (halfedge P (handle c)) = (h, Some v)"
    by (auto simp: facet_vertices_def)
  note m = find_shared_vertex_Some [OF f]
  note i = Intersect_facets_shared_vertex [OF assms(1) f, of K back_inserter out]
  from m have eq: "vertex P v = vertex P h" by simp
  from assms(3) have "Intersect_facets P K back_inserter out b c =
      Done (out @ [triangle_at P h, triangle_at P v])"
    unfolding i
    by (auto simp: on_answer_def write_pair_back_inserter split: sum.splits if_splits)
  then have "Intersect_facets P K back_inserter out b c =
                 Done (out @
                   [Triangle (point P (vertex P h))
                             (point P (vertex P (next P h)))
                             (point P (vertex P (next P (next P h)))),
                    Triangle (point P (vertex P h))
                             (point P (vertex P (next P v)))
                             (point P (vertex P (next P (next P v))))])"
    by (simp add: triangle_at_def eq)
  with m show ?thesis by blast
qed

theorem shared_vertex_triangles_start_at_V_witness:
  "\<not> shared_edge strip (halfedge strip (handle (facet_box strip 1))) (handle (facet_box strip 3))
   \<and> set (facet_vertices strip (handle (facet_box strip 1)))
       \<inter> set (facet_vertices strip (handle (facet_box strip 3))) \<noteq> {}
   \<and> output_of (Intersect_facets strip example_kernel back_inserter []
        (facet_box strip 1) (facet_box strip 3)) \<noteq> []
   \<and> Intersect_facets strip example_kernel back_inserter [] (facet_box strip 1) (facet_box strip 3)
       = Done [Triangle \<lparr>px = 4, py = 4, pz = 1\<rparr> \<lparr>px = 0, py = 4, pz = 0\<rparr> \<lparr>px = 4, py = 0, pz = 0\<rparr>,
               Triangle \<lparr>px = 4, py = 4, pz = 1\<rparr> \<lparr>px = 1, py = 1, pz = - 1\<rparr> \<lparr>px = 1, py = 1, pz = 2\<rparr>]"
proof -
  have o: "output_of (Intersect_facets strip example_kernel back_inserter []
        (facet_box strip 1) (facet_box strip 3)) \<noteq> []"
    unfolding strip_written_1_3 by simp
  from shared_vertex_triangles_start_at_V [OF strip_facet_1_3 o]
  obtain h v where
    hv: "h \<in> set (facet_halfedges strip (halfedge strip (handle (facet_box strip 1))))"
        "v \<in> set (facet_halfedges strip (halfedge strip (handle (facet_box strip 3))))"
        "vertex strip h = vertex strip v"
    and w: "Intersect_facets strip example_kernel back_inserter []
              (facet_box strip 1) (facet_box strip 3) =
            Done ([] @
              [Triangle (point strip (vertex strip h))
                        (point strip (vertex strip (next strip h)))
                        (point strip (vertex strip (next strip (next strip h)))),
               Triangle (point strip (vertex strip h))
                        (point strip (vertex strip (next strip v)))
                        (point strip (vertex strip (next strip (next strip v))))])"
    by blast
  from strip_shared_vertex_1_3 [OF hv] have e: "h = 5" "v = 9" by simp_all
  from w have "Intersect_facets strip example_kernel back_inserter []
      (facet_box strip 1) (facet_box strip 3)
       = Done [Triangle \<lparr>px = 4, py = 4, pz = 1\<rparr> \<lparr>px = 0, py = 4, pz = 0\<rparr> \<lparr>px = 4, py = 0, pz = 0\<rparr>,
               Triangle \<lparr>px = 4, py = 4, pz = 1\<rparr> \<lparr>px = 1, py = 1, pz = - 1\<rparr> \<lparr>px = 1, py = 1, pz = 2\<rparr>]"
    unfolding e by (simp add: strip_def strip_points_def)
  with strip_facet_1_3 o show ?thesis by simp
qed

end
